theory Spec2Isabelle
  imports Main
begin

section \<open>The relational schema (shared/schema.ts)\<close>

text \<open>
  Timestamps are milliseconds since the epoch. Every column that the schema does not
  declare \<open>notNull\<close> is an option (\<open>None\<close> is SQL \<open>NULL\<close>). Field names carry a
  prefix where two tables share a column name; \<open>jsonb\<close> settings are an opaque string.
\<close>

type_synonym timestamp = nat

text \<open>\<open>UserPublic = Omit<User, 'password'>\<close>: the columns every sender and member
  query selects. \<open>User\<close> extends it by the password.\<close>

record user_public =
  user_id :: int
  username :: string
  displayName :: string
  avatar :: "string option"
  bio :: "string option"
  pronouns :: "string option"
  isOnline :: "bool option"
  backgroundImage :: "string option"
  settings :: "string option"
  isBanned :: "bool option"
  banReason :: "string option"

record user = user_public +
  password :: string

record conversation =
  conv_id :: int
  conv_name :: "string option"
  isGroup :: "bool option"
  conv_createdAt :: "timestamp option"

record conversation_member =
  cm_id :: int
  cm_conversationId :: int
  cm_userId :: int

record attachment =
  att_name :: string
  att_type :: string
  att_url :: string
  att_size :: "nat option"

text \<open>One entry of the \<open>reactions\<close> array stored on a message: \<open>{emoji, userId}\<close>.\<close>

record stored_reaction =
  sr_emoji :: string
  sr_userId :: int

record message =
  msg_id :: int
  msg_conversationId :: int
  msg_senderId :: int
  msg_content :: string
  msg_createdAt :: "timestamp option"
  msg_updatedAt :: "timestamp option"
  isEdited :: "bool option"
  msg_attachments :: "attachment list option"
  msg_reactions :: "stored_reaction list option"

text \<open>\<open>MessageWithSender = Message & {sender: UserPublic}\<close>.\<close>

record message_with_sender = message +
  sender :: user_public

text \<open>\<open>ConversationWithMembers = Conversation & {members, lastMessage?}\<close>.\<close>

record conversation_with_members = conversation +
  members :: "user_public list"
  lastMessage :: "message_with_sender option"

text \<open>\<open>InsertMessage\<close> (\<open>insertMessageSchema\<close>).\<close>

record insert_message =
  ins_conversationId :: int
  ins_senderId :: int
  ins_content :: string
  ins_attachments :: "attachment list option"
  ins_reactions :: "stored_reaction list option"

text \<open>\<open>MessageReaction\<close> (\<open>messageReactionSchema\<close>).\<close>

record message_reaction =
  mr_messageId :: int
  mr_emoji :: string
  mr_userId :: int

section \<open>The Store (server/storage.ts, class DatabaseStorage)\<close>

text \<open>
  The database is the four tables the gateway reaches, each a list of rows in table
  order, the serial sequence of \<open>messages.id\<close> and the clock that \<open>defaultNow()\<close> and
  \<open>new Date()\<close> read. Every method takes the store and returns the store it leaves
  behind with its result; a thrown exception is \<open>Inl\<close>. Failures of the database
  connection itself and the exhaustion of a sequence are not modelled.
\<close>

record store =
  users :: "user list"
  conversations :: "conversation list"
  conversationMembers :: "conversation_member list"
  messages :: "message list"
  messages_seq :: int
  clock :: timestamp

datatype store_error = NumericValueOutOfRange | ForeignKeyViolation | SenderNotFound

text \<open>
  Every id column is \<open>serial\<close> or \<open>integer\<close>, four bytes wide: no row carries an id
  outside that range, and a statement with an id parameter outside it is refused by
  the database before it touches a table, which the methods below do not catch.
\<close>

definition int4 :: "int \<Rightarrow> bool" where
  "int4 i = (- 2147483648 \<le> i \<and> i \<le> 2147483647)"

text \<open>
  The methods that read or update by a user or conversation id alone (\<open>getUser\<close>,
  \<open>updateUserOnlineStatus\<close>, \<open>getConversationById\<close>, \<open>getConversationsForUser\<close>) are
  refused in the same way. Where the gateway calls them it sends nothing after the
  refusal, exactly as when they find no row, so they are given by their result on the
  tables, which for such an id is that of finding no row.
\<close>

text \<open>The select of the public columns of the user with a given id, first row.\<close>

definition select_sender :: "store \<Rightarrow> int \<Rightarrow> user_public option" where
  "select_sender st uid =
     map_option user_public.truncate (find (\<lambda>u. user_id u = uid) (users st))"

definition with_sender :: "message \<Rightarrow> user_public \<Rightarrow> message_with_sender" where
  "with_sender m s = message.extend m (message_with_sender.fields s)"

definition getUser :: "store \<Rightarrow> int \<Rightarrow> user option" where
  "getUser st uid = find (\<lambda>u. user_id u = uid) (users st)"

definition updateUserOnlineStatus :: "store \<Rightarrow> int \<Rightarrow> bool \<Rightarrow> store \<times> user option" where
  "updateUserOnlineStatus st uid b =
     (let st' = st\<lparr>users := map (\<lambda>u. if user_id u = uid then u\<lparr>isOnline := Some b\<rparr> else u)
                                  (users st)\<rparr>
      in (st', find (\<lambda>u. user_id u = uid) (users st')))"

text \<open>
  \<open>createMessage\<close>. Both foreign keys of \<open>messages\<close> are checked by the insert, which
  throws when the conversation or the sender has no row. An id outside the integer
  range is refused before the statement runs; a foreign key is found violated after
  the row was formed, so the tables stay as they were but the sequence has given out
  its value. The row gets the next value of the sequence, \<open>created_at\<close> from
  the clock, \<open>is_edited\<close> from its default and \<open>NULL\<close> in every column not supplied.
\<close>

definition createMessage ::
  "store \<Rightarrow> insert_message \<Rightarrow> store \<times> (store_error + message_with_sender)" where
  "createMessage st insertMessage =
     (if find (\<lambda>c. conv_id c = ins_conversationId insertMessage) (conversations st) = None \<or>
         find (\<lambda>u. user_id u = ins_senderId insertMessage) (users st) = None
      then (if int4 (ins_conversationId insertMessage) \<and> int4 (ins_senderId insertMessage)
            then (st\<lparr>messages_seq := messages_seq st + 1\<rparr>, Inl ForeignKeyViolation)
            else (st, Inl NumericValueOutOfRange))
      else
        let message = \<lparr>msg_id = messages_seq st,
                       msg_conversationId = ins_conversationId insertMessage,
                       msg_senderId = ins_senderId insertMessage,
                       msg_content = ins_content insertMessage,
                       msg_createdAt = Some (clock st),
                       msg_updatedAt = None,
                       isEdited = Some False,
                       msg_attachments = ins_attachments insertMessage,
                       msg_reactions = ins_reactions insertMessage\<rparr>;
            st' = st\<lparr>messages := messages st @ [message],
                     messages_seq := messages_seq st + 1\<rparr>
        in (case select_sender st' (msg_senderId message) of
              None \<Rightarrow> (st', Inl SenderNotFound)
            | Some s \<Rightarrow> (st', Inr (with_sender message s))))"

text \<open>The select of the message with a given id, first row: the row, no row, or the
  refusal of an id that is outside the integer range (and so the id of no row).\<close>

definition select_message :: "store \<Rightarrow> int \<Rightarrow> store_error + message option" where
  "select_message st messageId =
     (case find (\<lambda>m. msg_id m = messageId) (messages st) of
        Some existingMessage \<Rightarrow> Inr (Some existingMessage)
      | None \<Rightarrow> if int4 messageId then Inr None else Inl NumericValueOutOfRange)"

text \<open>\<open>updateMessage\<close>, \<open>addReactionToMessage\<close> and \<open>removeReactionFromMessage\<close> return
  \<open>undefined\<close> (\<open>Inr None\<close>) when a select finds no row, and throw what the first
  select throws.\<close>

definition updateMessage ::
  "store \<Rightarrow> int \<Rightarrow> string \<Rightarrow> store \<times> (store_error + message_with_sender option)" where
  "updateMessage st messageId content =
     (case select_message st messageId of
        Inl err \<Rightarrow> (st, Inl err)
      | Inr None \<Rightarrow> (st, Inr None)
      | Inr (Some existingMessage) \<Rightarrow>
          let now = clock st;
              st' = st\<lparr>messages :=
                        map (\<lambda>m. if msg_id m = messageId
                                 then m\<lparr>msg_content := content, msg_updatedAt := Some now,
                                        isEdited := Some True\<rparr>
                                 else m)
                            (messages st)\<rparr>
          in (case find (\<lambda>m. msg_id m = messageId) (messages st') of
                None \<Rightarrow> (st', Inr None)
              | Some updatedMessage \<Rightarrow>
                  (case select_sender st' (msg_senderId updatedMessage) of
                     None \<Rightarrow> (st', Inr None)
                   | Some s \<Rightarrow> (st', Inr (Some (with_sender updatedMessage s))))))"

text \<open>\<open>addReactionToMessage\<close>: the reaction is appended unless the same user already
  reacted with the same emoji; the array is then written to every row with the id.\<close>

definition set_reactions :: "store \<Rightarrow> int \<Rightarrow> stored_reaction list \<Rightarrow> store" where
  "set_reactions st mid rs =
     st\<lparr>messages := map (\<lambda>m. if msg_id m = mid then m\<lparr>msg_reactions := Some rs\<rparr> else m)
                           (messages st)\<rparr>"

definition current_reactions :: "message \<Rightarrow> stored_reaction list" where
  "current_reactions m = (case msg_reactions m of None \<Rightarrow> [] | Some rs \<Rightarrow> rs)"

definition addReactionToMessage ::
  "store \<Rightarrow> int \<Rightarrow> message_reaction \<Rightarrow> store \<times> (store_error + message_with_sender option)" where
  "addReactionToMessage st messageId reaction =
     (case select_message st messageId of
        Inl err \<Rightarrow> (st, Inl err)
      | Inr None \<Rightarrow> (st, Inr None)
      | Inr (Some existingMessage) \<Rightarrow>
          let currentReactions = current_reactions existingMessage;
              existingReaction =
                find (\<lambda>r. sr_userId r = mr_userId reaction \<and> sr_emoji r = mr_emoji reaction)
                     currentReactions;
              updatedReactions =
                (if existingReaction \<noteq> None then currentReactions
                 else currentReactions @
                        [\<lparr>sr_emoji = mr_emoji reaction, sr_userId = mr_userId reaction\<rparr>]);
              st' = set_reactions st messageId updatedReactions
          in (case find (\<lambda>m. msg_id m = messageId) (messages st') of
                None \<Rightarrow> (st', Inr None)
              | Some updatedMessage \<Rightarrow>
                  (case select_sender st' (msg_senderId updatedMessage) of
                     None \<Rightarrow> (st', Inr None)
                   | Some s \<Rightarrow> (st', Inr (Some (with_sender updatedMessage s))))))"

text \<open>The reaction array a message id carries in the store (\<open>[]\<close> for \<open>NULL\<close> and for
  an id that no row has).\<close>

definition reactions_of :: "store \<Rightarrow> int \<Rightarrow> stored_reaction list" where
  "reactions_of st mid =
     (case find (\<lambda>m. msg_id m = mid) (messages st) of
        None \<Rightarrow> [] | Some m \<Rightarrow> current_reactions m)"


definition removeReactionFromMessage ::
  "store \<Rightarrow> int \<Rightarrow> int \<Rightarrow> string \<Rightarrow> store \<times> (store_error + message_with_sender option)" where
  "removeReactionFromMessage st messageId userId emoji =
     (case select_message st messageId of
        Inl err \<Rightarrow> (st, Inl err)
      | Inr None \<Rightarrow> (st, Inr None)
      | Inr (Some existingMessage) \<Rightarrow>
          let currentReactions = current_reactions existingMessage;
              updatedReactions =
                filter (\<lambda>r. \<not> (sr_userId r = userId \<and> sr_emoji r = emoji)) currentReactions;
              st' = set_reactions st messageId updatedReactions
          in (case find (\<lambda>m. msg_id m = messageId) (messages st') of
                None \<Rightarrow> (st', Inr None)
              | Some updatedMessage \<Rightarrow>
                  (case select_sender st' (msg_senderId updatedMessage) of
                     None \<Rightarrow> (st', Inr None)
                   | Some s \<Rightarrow> (st', Inr (Some (with_sender updatedMessage s))))))"

text \<open>
  \<open>getConversationById\<close>. The members are the users whose id is among the member rows
  of the conversation, in the order of the users table (none when the conversation has
  no member row). The last message is the first
  row of \<open>ORDER BY created_at DESC LIMIT 1\<close>: a \<open>NULL\<close> timestamp sorts before every
  other one, and among equal timestamps the earliest row of the table is taken.
\<close>

definition sorts_before :: "timestamp option \<Rightarrow> timestamp option \<Rightarrow> bool" where
  "sorts_before a b =
     (case a of None \<Rightarrow> b \<noteq> None
      | Some x \<Rightarrow> (case b of None \<Rightarrow> False | Some y \<Rightarrow> y < x))"

primrec most_recent :: "message list \<Rightarrow> message option" where
  "most_recent [] = None"
| "most_recent (m # ms) =
     (case most_recent ms of
        None \<Rightarrow> Some m
      | Some m' \<Rightarrow> if sorts_before (msg_createdAt m') (msg_createdAt m) then Some m' else Some m)"

definition conversation_members :: "store \<Rightarrow> int \<Rightarrow> user_public list" where
  "conversation_members st cid =
     (let memberIds = map cm_userId
                        (filter (\<lambda>m. cm_conversationId m = cid) (conversationMembers st))
      in map user_public.truncate (filter (\<lambda>u. user_id u \<in> set memberIds) (users st)))"

definition last_message :: "store \<Rightarrow> int \<Rightarrow> message_with_sender option" where
  "last_message st cid =
     (case most_recent (filter (\<lambda>m. msg_conversationId m = cid) (messages st)) of
        None \<Rightarrow> None
      | Some lastRow \<Rightarrow>
          (case select_sender st (msg_senderId lastRow) of
             None \<Rightarrow> None
           | Some s \<Rightarrow> Some (with_sender lastRow s)))"

definition getConversationById :: "store \<Rightarrow> int \<Rightarrow> conversation_with_members option" where
  "getConversationById st cid =
     (case find (\<lambda>c. conv_id c = cid) (conversations st) of
        None \<Rightarrow> None
      | Some conversation \<Rightarrow>
          Some (conversation.extend conversation
                  (conversation_with_members.fields (conversation_members st cid)
                     (last_message st cid))))"

text \<open>
  \<open>getConversationsForUser\<close>: the conversations of the member rows of the user, then
  sorted by the date of the last message, most recent first (the comparator is
  \<open>dateB - dateA\<close>; the sort is stable).
\<close>

definition conversation_date :: "store \<Rightarrow> conversation_with_members \<Rightarrow> timestamp" where
  "conversation_date st a =
     (case (case lastMessage a of None \<Rightarrow> None | Some lm \<Rightarrow> msg_createdAt lm) of
        Some t \<Rightarrow> t
      | None \<Rightarrow> (case conv_createdAt a of Some t \<Rightarrow> t | None \<Rightarrow> clock st))"

definition getConversationsForUser :: "store \<Rightarrow> int \<Rightarrow> conversation_with_members list" where
  "getConversationsForUser st userId =
     (let conversationIds = map cm_conversationId
                              (filter (\<lambda>m. cm_userId m = userId) (conversationMembers st));
          result = List.map_filter (getConversationById st) conversationIds
      in sort_key (\<lambda>c. - int (conversation_date st c)) result)"

section \<open>JavaScript values in an envelope\<close>

text \<open>
  A number is \<open>NaN\<close> or an integer (user, conversation and message ids are integers;
  fractions and infinities are outside the model). The integers are exact, as those
  of JavaScript are up to \<open>2 ^ 53\<close>; beyond that a JavaScript number is rounded, and
  from \<open>10 ^ 21\<close> on it is printed with an exponent, which is not modelled. The
  \<open>message\<close> field of an envelope is declared \<open>any\<close>: it is a number when the client
  authenticates and a string when it sends text; \<open>null\<close>, booleans, arrays and objects
  in that field are outside the model.
\<close>

datatype js_number = NaN | Num int

datatype js_value = JNumber js_number | JString string

text \<open>\<open>Number(x)\<close>. A missing field is \<open>undefined\<close> and converts to \<open>NaN\<close>. A string
  converts as a decimal integer literal with an optional sign, surrounding white space
  ignored, the empty string being 0; the other literal forms of ECMAScript (fractions,
  exponents, hexadecimal, \<open>Infinity\<close>) are not parsed and convert to \<open>NaN\<close> here.\<close>

definition is_space :: "char \<Rightarrow> bool" where
  "is_space c = (c \<in> set [CHR '' '', CHR 0x09, CHR 0x0A, CHR 0x0B, CHR 0x0C, CHR 0x0D])"

definition is_digit :: "char \<Rightarrow> bool" where
  "is_digit c = (c \<in> set ''0123456789'')"

definition digits_value :: "string \<Rightarrow> int" where
  "digits_value ds = foldl (\<lambda>a c. 10 * a + (of_char c - 48)) 0 ds"

definition unsigned_literal :: "string \<Rightarrow> js_number" where
  "unsigned_literal ds = (if ds \<noteq> [] \<and> list_all is_digit ds then Num (digits_value ds) else NaN)"

definition negate :: "js_number \<Rightarrow> js_number" where
  "negate x = (case x of NaN \<Rightarrow> NaN | Num n \<Rightarrow> Num (- n))"

definition StringToNumber :: "string \<Rightarrow> js_number" where
  "StringToNumber s =
     (case rev (dropWhile is_space (rev (dropWhile is_space s))) of
        [] \<Rightarrow> Num 0
      | c # r \<Rightarrow> if c = CHR ''+'' then unsigned_literal r
                 else if c = CHR ''-'' then negate (unsigned_literal r)
                 else unsigned_literal (c # r))"

definition Number :: "js_value option \<Rightarrow> js_number" where
  "Number x = (case x of None \<Rightarrow> NaN | Some (JNumber n) \<Rightarrow> n | Some (JString s) \<Rightarrow> StringToNumber s)"

text \<open>Truthiness, as \<open>!x\<close> and \<open>if (x)\<close> test it: \<open>undefined\<close>, \<open>NaN\<close>, 0 and the empty
  string are falsy.\<close>

definition truthy_number :: "js_number \<Rightarrow> bool" where
  "truthy_number x = (case x of NaN \<Rightarrow> False | Num n \<Rightarrow> n \<noteq> 0)"

definition truthy_value :: "js_value option \<Rightarrow> bool" where
  "truthy_value x =
     (case x of None \<Rightarrow> False | Some (JNumber n) \<Rightarrow> truthy_number n | Some (JString s) \<Rightarrow> s \<noteq> [])"

definition truthy_int :: "int option \<Rightarrow> bool" where
  "truthy_int x = (case x of None \<Rightarrow> False | Some n \<Rightarrow> n \<noteq> 0)"

definition truthy_string :: "string option \<Rightarrow> bool" where
  "truthy_string x = (case x of None \<Rightarrow> False | Some s \<Rightarrow> s \<noteq> [])"

text \<open>The text a value becomes when it is bound to the \<open>content\<close> column: a string as it
  is, a number in decimal.\<close>

fun decimal :: "nat \<Rightarrow> string" where
  "decimal n = (if n < 10 then [char_of (48 + n)] else decimal (n div 10) @ [char_of (48 + n mod 10)])"

definition content_text :: "js_value \<Rightarrow> string" where
  "content_text v =
     (case v of
        JString s \<Rightarrow> s
      | JNumber NaN \<Rightarrow> ''NaN''
      | JNumber (Num n) \<Rightarrow> if n < 0 then CHR ''-'' # decimal (nat (- n)) else decimal (nat n))"

section \<open>The gateway (server/socket.ts, setupSocketServer)\<close>

text \<open>\<open>MessagePayload\<close>: the parsed envelope a client sent. Every field but \<open>type\<close> is
  optional.\<close>

record payload =
  p_type :: string
  p_conversationId :: "int option"
  p_message :: "js_value option"
  p_messageId :: "int option"
  p_content :: "string option"
  p_emoji :: "string option"
  p_attachments :: "attachment list option"

text \<open>The envelopes the gateway sends.\<close>

datatype server_envelope =
    Connected string
  | NewMessage int message_with_sender
  | MessageUpdated int message_with_sender
  | MessageReacted int message_with_sender
  | MessageReactionRemoved int message_with_sender
  | Typing int int
  | UserStatus int bool
  | Error string

datatype ready_state = CONNECTING | OPEN | CLOSING | CLOSED

text \<open>
  A connection is the identity of its \<open>WebSocket\<close> object. The state of the gateway is
  the \<open>clients\<close> map, the ready state of every socket, the \<open>userId\<close> variable in the
  closure of every connection (\<open>None\<close> is \<open>undefined\<close>), the Store, and the log of
  every \<open>send\<close> call in the order made. Each handler runs to its end before the next
  event is taken: the interleaving of handlers at an \<open>await\<close> is not modelled.
\<close>

type_synonym conn = nat

record gateway =
  clients :: "int \<rightharpoonup> conn"
  readyState :: "conn \<Rightarrow> ready_state"
  userId :: "conn \<Rightarrow> js_number option"
  storage :: store
  sent :: "(conn \<times> server_envelope) list"

definition truthy_userId :: "js_number option \<Rightarrow> bool" where
  "truthy_userId x = (case x of None \<Rightarrow> False | Some n \<Rightarrow> truthy_number n)"

definition ws_send :: "gateway \<Rightarrow> conn \<Rightarrow> server_envelope \<Rightarrow> gateway" where
  "ws_send s ws env = s\<lparr>sent := sent s @ [(ws, env)]\<rparr>"

text \<open>The body of every fan-out loop: look the member up, send if the socket is open.\<close>

definition deliver :: "gateway \<Rightarrow> int \<Rightarrow> server_envelope \<Rightarrow> (conn \<times> server_envelope) list" where
  "deliver s memberId env =
     (case clients s memberId of
        None \<Rightarrow> []
      | Some client \<Rightarrow> if readyState s client = OPEN then [(client, env)] else [])"

definition broadcast :: "gateway \<Rightarrow> user_public list \<Rightarrow> server_envelope \<Rightarrow> gateway" where
  "broadcast s ms env =
     s\<lparr>sent := sent s @ concat (map (\<lambda>member. deliver s (user_id member) env) ms)\<rparr>"

text \<open>\<open>broadcastUserStatus\<close>. The \<open>Set\<close> of member ids keeps insertion order.\<close>

definition set_add :: "int \<Rightarrow> int list \<Rightarrow> int list" where
  "set_add x acc = (if x \<in> set acc then acc else acc @ [x])"

definition unique_members :: "conversation_with_members list \<Rightarrow> int list" where
  "unique_members convs =
     fold (\<lambda>conv acc. fold (\<lambda>member acc. set_add (user_id member) acc) (members conv) acc)
          convs []"

definition broadcastUserStatus :: "gateway \<Rightarrow> int \<Rightarrow> bool \<Rightarrow> gateway" where
  "broadcastUserStatus s uid online =
     (case getUser (storage s) uid of
        None \<Rightarrow> s
      | Some u \<Rightarrow>
          let convs = getConversationsForUser (storage s) uid;
              uniqueMembers = unique_members convs
          in s\<lparr>sent := sent s @
                 concat (map (\<lambda>memberId. if memberId \<noteq> uid
                                          then deliver s memberId (UserStatus uid online)
                                          else [])
                             uniqueMembers)\<rparr>)"

text \<open>
  The cases of the \<open>switch (payload.type)\<close> in the message handler of a connection
  \<open>ws\<close>, one definition each. The checks are the source's truthiness tests; the
  \<open>case\<close> that follows them only names the values the checks have found present, and
  its last branch is never taken.
\<close>

definition on_authenticate :: "gateway \<Rightarrow> conn \<Rightarrow> payload \<Rightarrow> gateway" where
  "on_authenticate s ws p =
     (let uid = Number (p_message p);
          s1 = s\<lparr>userId := (userId s)(ws := Some uid)\<rparr>
      in (case uid of
            NaN \<Rightarrow> s1
          | Num n \<Rightarrow>
              let s2 = s1\<lparr>clients := (clients s1)(n \<mapsto> ws)\<rparr>;
                  s3 = s2\<lparr>storage := fst (updateUserOnlineStatus (storage s2) n True)\<rparr>
              in broadcastUserStatus s3 n True))"

definition on_send_message :: "gateway \<Rightarrow> conn \<Rightarrow> payload \<Rightarrow> gateway" where
  "on_send_message s ws p =
     (if \<not> truthy_userId (userId s ws) then ws_send s ws (Error ''Not authenticated'')
      else if \<not> truthy_int (p_conversationId p) \<or> \<not> truthy_value (p_message p)
      then ws_send s ws (Error ''Invalid message format'')
      else
        (case (userId s ws, p_conversationId p, p_message p) of
           (Some (Num uid), Some cid, Some content) \<Rightarrow>
             let messageData =
                   \<lparr>ins_conversationId = cid, ins_senderId = uid,
                    ins_content = content_text content,
                    ins_attachments = Some (case p_attachments p of None \<Rightarrow> [] | Some as \<Rightarrow> as),
                    ins_reactions = None\<rparr>
             in (case createMessage (storage s) messageData of
                   (st', Inl err) \<Rightarrow> s\<lparr>storage := st'\<rparr>
                 | (st', Inr savedMessage) \<Rightarrow>
                     let s' = s\<lparr>storage := st'\<rparr>
                     in (case getConversationById st' cid of
                           None \<Rightarrow> s'
                         | Some conversation \<Rightarrow>
                             broadcast s' (members conversation) (NewMessage cid savedMessage)))
         | _ \<Rightarrow> s))"

definition on_typing :: "gateway \<Rightarrow> conn \<Rightarrow> payload \<Rightarrow> gateway" where
  "on_typing s ws p =
     (if \<not> truthy_userId (userId s ws) \<or> \<not> truthy_int (p_conversationId p) then s
      else
        (case (userId s ws, p_conversationId p) of
           (Some (Num uid), Some cid) \<Rightarrow>
             (case getConversationById (storage s) cid of
                None \<Rightarrow> s
              | Some typingConversation \<Rightarrow>
                  s\<lparr>sent := sent s @
                       concat (map (\<lambda>member. if user_id member \<noteq> uid
                                              then deliver s (user_id member) (Typing cid uid)
                                              else [])
                                   (members typingConversation))\<rparr>)
         | _ \<Rightarrow> s))"

definition on_edit_message :: "gateway \<Rightarrow> conn \<Rightarrow> payload \<Rightarrow> gateway" where
  "on_edit_message s ws p =
     (if \<not> truthy_userId (userId s ws) \<or> \<not> truthy_int (p_messageId p) \<or>
         \<not> truthy_string (p_content p)
      then ws_send s ws (Error ''Invalid message edit format'')
      else
        (case (p_messageId p, p_content p) of
           (Some messageId, Some content) \<Rightarrow>
             (case updateMessage (storage s) messageId content of
                (st', Inl err) \<Rightarrow> s\<lparr>storage := st'\<rparr>
              | (st', Inr None) \<Rightarrow>
                  ws_send (s\<lparr>storage := st'\<rparr>) ws (Error ''Failed to update message'')
              | (st', Inr (Some updatedMessage)) \<Rightarrow>
                  let s' = s\<lparr>storage := st'\<rparr>
                  in (case getConversationById st' (msg_conversationId updatedMessage) of
                        None \<Rightarrow> s'
                      | Some messageConversation \<Rightarrow>
                          broadcast s' (members messageConversation)
                            (MessageUpdated (msg_conversationId updatedMessage) updatedMessage)))
         | _ \<Rightarrow> s))"

definition on_add_reaction :: "gateway \<Rightarrow> conn \<Rightarrow> payload \<Rightarrow> gateway" where
  "on_add_reaction s ws p =
     (if \<not> truthy_userId (userId s ws) \<or> \<not> truthy_int (p_messageId p) \<or>
         \<not> truthy_string (p_emoji p)
      then ws_send s ws (Error ''Invalid reaction format'')
      else
        (case (userId s ws, p_messageId p, p_emoji p) of
           (Some (Num uid), Some messageId, Some emoji) \<Rightarrow>
             let reaction = \<lparr>mr_messageId = messageId, mr_emoji = emoji, mr_userId = uid\<rparr>
             in (case addReactionToMessage (storage s) messageId reaction of
                   (st', Inl err) \<Rightarrow> s\<lparr>storage := st'\<rparr>
                 | (st', Inr None) \<Rightarrow>
                     ws_send (s\<lparr>storage := st'\<rparr>) ws (Error ''Failed to add reaction'')
                 | (st', Inr (Some messageWithReaction)) \<Rightarrow>
                     let s' = s\<lparr>storage := st'\<rparr>
                     in (case getConversationById st' (msg_conversationId messageWithReaction) of
                           None \<Rightarrow> s'
                         | Some reactionConversation \<Rightarrow>
                             broadcast s' (members reactionConversation)
                               (MessageReacted (msg_conversationId messageWithReaction)
                                  messageWithReaction)))
         | _ \<Rightarrow> s))"

definition on_remove_reaction :: "gateway \<Rightarrow> conn \<Rightarrow> payload \<Rightarrow> gateway" where
  "on_remove_reaction s ws p =
     (if \<not> truthy_userId (userId s ws) \<or> \<not> truthy_int (p_messageId p) \<or>
         \<not> truthy_string (p_emoji p)
      then ws_send s ws (Error ''Invalid reaction removal format'')
      else
        (case (userId s ws, p_messageId p, p_emoji p) of
           (Some (Num uid), Some messageId, Some emoji) \<Rightarrow>
             (case removeReactionFromMessage (storage s) messageId uid emoji of
                (st', Inl err) \<Rightarrow> s\<lparr>storage := st'\<rparr>
              | (st', Inr None) \<Rightarrow>
                  ws_send (s\<lparr>storage := st'\<rparr>) ws (Error ''Failed to remove reaction'')
              | (st', Inr (Some messageAfterRemoval)) \<Rightarrow>
                  let s' = s\<lparr>storage := st'\<rparr>
                  in (case getConversationById st' (msg_conversationId messageAfterRemoval) of
                        None \<Rightarrow> s'
                      | Some removalConversation \<Rightarrow>
                          broadcast s' (members removalConversation)
                            (MessageReactionRemoved (msg_conversationId messageAfterRemoval)
                               messageAfterRemoval)))
         | _ \<Rightarrow> s))"

text \<open>\<open>ws.on('message')\<close>. Data that \<open>JSON.parse\<close> rejects is \<open>None\<close>: the exception is
  caught and logged, as is one that a Store method throws (the \<open>Inl\<close> branches above):
  the handler ends there and sends nothing. An envelope of any other type falls
  through the switch.\<close>

definition on_message :: "gateway \<Rightarrow> conn \<Rightarrow> payload option \<Rightarrow> gateway" where
  "on_message s ws data =
     (case data of
        None \<Rightarrow> s
      | Some p \<Rightarrow>
          if p_type p = ''authenticate'' then on_authenticate s ws p
          else if p_type p = ''message'' then on_send_message s ws p
          else if p_type p = ''typing'' then on_typing s ws p
          else if p_type p = ''edit_message'' then on_edit_message s ws p
          else if p_type p = ''add_reaction'' then on_add_reaction s ws p
          else if p_type p = ''remove_reaction'' then on_remove_reaction s ws p
          else s)"

text \<open>\<open>ws.on('close')\<close>: the socket is closed when the handler runs.\<close>

definition on_close :: "gateway \<Rightarrow> conn \<Rightarrow> gateway" where
  "on_close s ws =
     (let s0 = s\<lparr>readyState := (readyState s)(ws := CLOSED)\<rparr>
      in if \<not> truthy_userId (userId s0 ws) then s0
         else
           (case userId s0 ws of
              Some (Num uid) \<Rightarrow>
                let s1 = s0\<lparr>clients := (clients s0)(uid := None)\<rparr>;
                    s2 = s1\<lparr>storage := fst (updateUserOnlineStatus (storage s1) uid False)\<rparr>
                in broadcastUserStatus s2 uid False
            | _ \<Rightarrow> s0))"

text \<open>\<open>wss.on('connection')\<close>: a new open socket, its \<open>userId\<close> undefined, greeted.\<close>

definition on_connection :: "gateway \<Rightarrow> conn \<Rightarrow> gateway" where
  "on_connection s ws =
     ws_send (s\<lparr>readyState := (readyState s)(ws := OPEN), userId := (userId s)(ws := None)\<rparr>)
       ws (Connected ''Connected to chat server'')"

section \<open>The client connection (client/src/lib/socket.ts)\<close>

text \<open>\<open>QueuedMessage\<close>, the union of the actions the client queues, and the envelopes
  the client hands to the transport.\<close>

datatype queued_message =
    QMessage int string "attachment list option"
  | QEditMessage int string
  | QAddReaction int string
  | QRemoveReaction int string
  | QTyping int

datatype client_envelope = Authenticate "int option" | Action queued_message

text \<open>
  The module state: the variables \<open>socket\<close>, \<open>socketReconnectTimer\<close>,
  \<open>currentUserId\<close>, \<open>reconnectAttempts\<close> and \<open>messageQueue\<close>, and around them the
  environment they act on. A socket is its ready state and the \<open>userId\<close> its handlers
  captured. A timeout handle is an object and so truthy: \<open>socketReconnectTimer\<close> tests
  as set exactly when it is not \<open>null\<close>. \<open>timers\<close> holds the pending timeouts as
  (handle, delay), \<open>scheduled\<close> every
  \<open>setTimeout\<close> call ever made, \<open>wire\<close> every envelope a \<open>socket.send\<close> call
  delivered, in order. \<open>send_faults\<close> scripts the coming \<open>socket.send\<close> calls: \<open>True\<close> is
  a call that throws, and a call beyond the script succeeds.
\<close>

record websocket =
  ws_readyState :: ready_state
  ws_userId :: "int option"

record client =
  socket :: "websocket option"
  socketReconnectTimer :: "nat option"
  currentUserId :: "int option"
  reconnectAttempts :: nat
  messageQueue :: "queued_message list"
  timers :: "(nat \<times> nat) list"
  next_handle :: nat
  scheduled :: "(nat \<times> nat) list"
  wire :: "client_envelope list"
  send_faults :: "bool list"

definition MAX_RECONNECT_ATTEMPTS :: nat where
  "MAX_RECONNECT_ATTEMPTS = 5"

definition RECONNECT_DELAY_MS :: nat where
  "RECONNECT_DELAY_MS = 3000"

text \<open>\<open>socket.send\<close>: the second component is \<open>False\<close> when the call threw.\<close>

definition socket_send :: "client \<Rightarrow> client_envelope \<Rightarrow> client \<times> bool" where
  "socket_send c env =
     (case send_faults c of
        [] \<Rightarrow> (c\<lparr>wire := wire c @ [env]\<rparr>, True)
      | f # fs \<Rightarrow> if f then (c\<lparr>send_faults := fs\<rparr>, False)
                  else (c\<lparr>send_faults := fs, wire := wire c @ [env]\<rparr>, True))"

definition is_open :: "client \<Rightarrow> bool" where
  "is_open c = (case socket c of None \<Rightarrow> False | Some w \<Rightarrow> ws_readyState w = OPEN)"

definition is_closed :: "client \<Rightarrow> bool" where
  "is_closed c = (case socket c of None \<Rightarrow> False | Some w \<Rightarrow> ws_readyState w = CLOSED)"

definition setTimeout :: "client \<Rightarrow> nat \<Rightarrow> client \<times> nat" where
  "setTimeout c delay =
     (let h = next_handle c
      in (c\<lparr>timers := timers c @ [(h, delay)], scheduled := scheduled c @ [(h, delay)],
            next_handle := h + 1\<rparr>, h))"

definition clearTimeout :: "client \<Rightarrow> nat \<Rightarrow> client" where
  "clearTimeout c h = c\<lparr>timers := filter (\<lambda>t. fst t \<noteq> h) (timers c)\<rparr>"

definition reconnectSocket :: "client \<Rightarrow> client" where
  "reconnectSocket c =
     (if socketReconnectTimer c \<noteq> None \<or> \<not> truthy_int (currentUserId c) then c
      else if reconnectAttempts c < MAX_RECONNECT_ATTEMPTS
      then (case setTimeout c RECONNECT_DELAY_MS of
              (c', h) \<Rightarrow> c'\<lparr>socketReconnectTimer := Some h\<rparr>)
      else c)"

definition sendAuthMessage :: "client \<Rightarrow> int option \<Rightarrow> client \<times> bool" where
  "sendAuthMessage c uid = (if is_open c then socket_send c (Authenticate uid) else (c, True))"

text \<open>\<open>processMessageQueue\<close>: the \<open>while\<close> loop shifts the head off the queue and sends
  it; a send that throws puts it back at the front and leaves the loop.\<close>

function drain :: "client \<Rightarrow> client" where
  "drain c =
     (case messageQueue c of
        [] \<Rightarrow> c
      | queuedMessage # rest \<Rightarrow>
          (case socket_send (c\<lparr>messageQueue := rest\<rparr>) (Action queuedMessage) of
             (c', ok) \<Rightarrow>
               if ok then drain c'
               else c'\<lparr>messageQueue := queuedMessage # messageQueue c'\<rparr>))"
  by pat_completeness auto
termination
  by (relation "measure (\<lambda>c. length (messageQueue c))")
     (auto simp: socket_send_def split: list.splits if_splits)

declare drain.simps [simp del]

definition processMessageQueue :: "client \<Rightarrow> client" where
  "processMessageQueue c = (if is_open c \<and> messageQueue c \<noteq> [] then drain c else c)"

text \<open>\<open>connectSocket\<close>. A socket that is replaced is closed and dropped from \<open>socket\<close>;
  its \<open>onclose\<close> handler stays installed and runs later. The second component is
  \<open>False\<close> when the call threw.\<close>

definition connectSocket :: "client \<Rightarrow> int option \<Rightarrow> client \<times> bool" where
  "connectSocket c uid =
     (let c1 = c\<lparr>currentUserId := uid\<rparr>
      in if is_open c1
         then (case sendAuthMessage c1 uid of
                 (c2, ok) \<Rightarrow> if ok then (processMessageQueue c2, True) else (c2, False))
         else (c1\<lparr>socket := Some \<lparr>ws_readyState = CONNECTING, ws_userId = uid\<rparr>\<rparr>, True))"

text \<open>The callback of the reconnect timer, run when the timeout with handle \<open>h\<close>
  expires (a handle that is not pending does nothing).\<close>

definition timer_fires :: "client \<Rightarrow> nat \<Rightarrow> client" where
  "timer_fires c h =
     (if h \<notin> fst ` set (timers c) then c
      else
        (case connectSocket (clearTimeout c h) (currentUserId c) of
           (c1, ok) \<Rightarrow>
             if ok then c1\<lparr>reconnectAttempts := reconnectAttempts c1 + 1,
                          socketReconnectTimer := None\<rparr>
             else c1))"

text \<open>\<open>socket.onopen\<close>, for the socket that is connecting.\<close>

definition socket_onopen :: "client \<Rightarrow> client" where
  "socket_onopen c =
     (case socket c of
        None \<Rightarrow> c
      | Some w \<Rightarrow>
          if ws_readyState w \<noteq> CONNECTING then c
          else
            let c0 = c\<lparr>socket := Some (w\<lparr>ws_readyState := OPEN\<rparr>), reconnectAttempts := 0\<rparr>
            in (case sendAuthMessage c0 (ws_userId w) of
                  (c1, ok) \<Rightarrow>
                    if \<not> ok then c1
                    else
                      let c2 = processMessageQueue c1
                      in (case socketReconnectTimer c2 of
                            None \<Rightarrow> c2
                          | Some h \<Rightarrow> (clearTimeout c2 h)\<lparr>socketReconnectTimer := None\<rparr>)))"

text \<open>\<open>socket.onclose\<close>: of the current socket, which is closed by then, and of a socket
  replaced earlier.\<close>

definition socket_onclose :: "client \<Rightarrow> client" where
  "socket_onclose c =
     (case socket c of
        None \<Rightarrow> c
      | Some w \<Rightarrow> reconnectSocket (c\<lparr>socket := Some (w\<lparr>ws_readyState := CLOSED\<rparr>)\<rparr>))"

definition stale_onclose :: "client \<Rightarrow> client" where
  "stale_onclose c = reconnectSocket c"

definition disconnectSocket :: "client \<Rightarrow> client" where
  "disconnectSocket c =
     (let c1 = (case socket c of None \<Rightarrow> c | Some w \<Rightarrow> c\<lparr>socket := None\<rparr>)
      in (case socketReconnectTimer c1 of
            None \<Rightarrow> c1
          | Some h \<Rightarrow> (clearTimeout c1 h)\<lparr>socketReconnectTimer := None\<rparr>))"

text \<open>The four actions that are queued when they cannot be sent, and the typing
  notice, which is not. The result is the returned flag.\<close>

definition queue_and_reconnect :: "client \<Rightarrow> queued_message \<Rightarrow> client \<times> bool" where
  "queue_and_reconnect c messagePayload =
     (let c1 = c\<lparr>messageQueue := messageQueue c @ [messagePayload]\<rparr>
      in (if socket c1 = None \<or> is_closed c1 then reconnectSocket c1 else c1, False))"

definition sendMessage ::
  "client \<Rightarrow> int \<Rightarrow> string \<Rightarrow> attachment list option \<Rightarrow> client \<times> bool" where
  "sendMessage c conversationId msg attachments =
     (let messagePayload = QMessage conversationId msg attachments
      in if is_open c
         then (case socket_send c (Action messagePayload) of
                 (c1, ok) \<Rightarrow>
                   if ok then (c1, True)
                   else
                     let c2 = c1\<lparr>messageQueue := messageQueue c1 @ [messagePayload]\<rparr>
                     in (if is_closed c2 then reconnectSocket c2 else c2, False))
         else queue_and_reconnect c messagePayload)"

definition editMessage :: "client \<Rightarrow> int \<Rightarrow> string \<Rightarrow> client \<times> bool" where
  "editMessage c messageId content =
     (let messagePayload = QEditMessage messageId content
      in if is_open c
         then (case socket_send c (Action messagePayload) of
                 (c1, ok) \<Rightarrow>
                   if ok then (c1, True)
                   else
                     let c2 = c1\<lparr>messageQueue := messageQueue c1 @ [messagePayload]\<rparr>
                     in (if is_closed c2 then reconnectSocket c2 else c2, False))
         else queue_and_reconnect c messagePayload)"

definition is_connecting :: "client \<Rightarrow> bool" where
  "is_connecting c = (case socket c of None \<Rightarrow> False | Some w \<Rightarrow> ws_readyState w = CONNECTING)"

definition addReaction :: "client \<Rightarrow> int \<Rightarrow> string \<Rightarrow> client \<times> bool" where
  "addReaction c messageId emoji =
     (let messagePayload = QAddReaction messageId emoji
      in if is_open c
         then (case socket_send c (Action messagePayload) of
                 (c1, ok) \<Rightarrow>
                   if ok then (c1, True)
                   else
                     let c2 = c1\<lparr>messageQueue := messageQueue c1 @ [messagePayload]\<rparr>
                     in (if \<not> is_connecting c2 then reconnectSocket c2 else c2, False))
         else queue_and_reconnect c messagePayload)"

definition removeReaction :: "client \<Rightarrow> int \<Rightarrow> string \<Rightarrow> client \<times> bool" where
  "removeReaction c messageId emoji =
     (let messagePayload = QRemoveReaction messageId emoji
      in if is_open c
         then (case socket_send c (Action messagePayload) of
                 (c1, ok) \<Rightarrow>
                   if ok then (c1, True)
                   else
                     let c2 = c1\<lparr>messageQueue := messageQueue c1 @ [messagePayload]\<rparr>
                     in (if \<not> is_connecting c2 then reconnectSocket c2 else c2, False))
         else queue_and_reconnect c messagePayload)"

definition sendTypingNotification :: "client \<Rightarrow> int \<Rightarrow> client \<times> bool" where
  "sendTypingNotification c conversationId =
     (if is_open c then socket_send c (Action (QTyping conversationId)) else (c, True))"

text \<open>What can happen to the client: the transport opens or closes the current socket,
  a replaced socket reports its close, a timeout expires, the application submits an
  action, or it calls \<open>connectSocket\<close> or \<open>disconnectSocket\<close> itself.\<close>

datatype client_event =
    TransportOpen
  | TransportClose
  | StaleClose
  | TimerFires nat
  | SendMessage int string "attachment list option"
  | EditMessage int string
  | AddReaction int string
  | RemoveReaction int string
  | TypingNotification int
  | ConnectSocket int
  | DisconnectSocket

fun client_step :: "client \<Rightarrow> client_event \<Rightarrow> client" where
  "client_step c TransportOpen = socket_onopen c"
| "client_step c TransportClose = socket_onclose c"
| "client_step c StaleClose = stale_onclose c"
| "client_step c (TimerFires h) = timer_fires c h"
| "client_step c (SendMessage cid msg as) = fst (sendMessage c cid msg as)"
| "client_step c (EditMessage mid content) = fst (editMessage c mid content)"
| "client_step c (AddReaction mid emoji) = fst (addReaction c mid emoji)"
| "client_step c (RemoveReaction mid emoji) = fst (removeReaction c mid emoji)"
| "client_step c (TypingNotification cid) = fst (sendTypingNotification c cid)"
| "client_step c (ConnectSocket uid) = fst (connectSocket c (Some uid))"
| "client_step c DisconnectSocket = disconnectSocket c"

definition client_run :: "client \<Rightarrow> client_event list \<Rightarrow> client" where
  "client_run c es = foldl client_step c es"

section \<open>Example states\<close>

text \<open>Three users who share conversation 7, which holds message 5; each user has
  authenticated on an open connection of their own (10, 20 and 30), and connection 40
  is open and has not authenticated.\<close>

definition example_user :: "int \<Rightarrow> string \<Rightarrow> user" where
  "example_user i n =
     \<lparr>user_id = i, username = n, displayName = n, avatar = None, bio = None,
      pronouns = None, isOnline = Some True, backgroundImage = None, settings = None,
      isBanned = Some False, banReason = None, password = ''secret''\<rparr>"

definition example_store :: store where
  "example_store =
     \<lparr>users = [example_user 1 ''ann'', example_user 2 ''bob'', example_user 3 ''cy''],
      conversations = [\<lparr>conv_id = 7, conv_name = None, isGroup = Some True,
                        conv_createdAt = Some 100\<rparr>],
      conversationMembers = [\<lparr>cm_id = 1, cm_conversationId = 7, cm_userId = 1\<rparr>,
                             \<lparr>cm_id = 2, cm_conversationId = 7, cm_userId = 2\<rparr>,
                             \<lparr>cm_id = 3, cm_conversationId = 7, cm_userId = 3\<rparr>],
      messages = [\<lparr>msg_id = 5, msg_conversationId = 7, msg_senderId = 1,
                   msg_content = ''hello'', msg_createdAt = Some 200, msg_updatedAt = None,
                   isEdited = Some False, msg_attachments = Some [], msg_reactions = None\<rparr>],
      messages_seq = 6,
      clock = 300\<rparr>"

definition example_gateway :: gateway where
  "example_gateway =
     \<lparr>clients = [1 \<mapsto> 10, 2 \<mapsto> 20, 3 \<mapsto> 30],
      readyState = (\<lambda>ws. if ws \<in> set [10, 20, 30, 40] then OPEN else CLOSED),
      userId = (\<lambda>ws. if ws = 10 then Some (Num 1) else if ws = 20 then Some (Num 2)
                      else if ws = 30 then Some (Num 3) else None),
      storage = example_store,
      sent = []\<rparr>"

text \<open>A client of user 1 whose socket is open, with three actions queued while it
  was disconnected; the second \<open>socket.send\<close> to come throws.\<close>

definition example_client :: client where
  "example_client =
     \<lparr>socket = Some \<lparr>ws_readyState = OPEN, ws_userId = Some 1\<rparr>,
      socketReconnectTimer = None,
      currentUserId = Some 1,
      reconnectAttempts = 0,
      messageQueue = [QMessage 7 ''m1'' None, QEditMessage 5 ''m2'', QAddReaction 5 ''m3''],
      timers = [],
      next_handle = 1,
      scheduled = [],
      wire = [],
      send_faults = [False, True]\<rparr>"

text \<open>A client of user 1 whose first connection attempt is under way, and an outage:
  every attempt fails, each timeout expires in turn, and the application submits a
  message at the end.\<close>

definition example_lost_client :: client where
  "example_lost_client =
     \<lparr>socket = Some \<lparr>ws_readyState = CONNECTING, ws_userId = Some 1\<rparr>,
      socketReconnectTimer = None,
      currentUserId = Some 1,
      reconnectAttempts = 0,
      messageQueue = [],
      timers = [],
      next_handle = 1,
      scheduled = [],
      wire = [],
      send_faults = []\<rparr>"

definition example_outage :: "client_event list" where
  "example_outage =
     [TransportClose, TimerFires 1, TransportClose, TimerFires 2, TransportClose, TimerFires 3,
      TransportClose, TimerFires 4, TransportClose, TimerFires 5, TransportClose, StaleClose,
      SendMessage 7 ''hi'' None]"

text \<open>The same client when the application gives up and starts over six times: every
  attempt fails, each time the application calls \<open>disconnectSocket\<close> while the timeout
  is pending and then \<open>connectSocket\<close> again. The socket never opens.\<close>

definition example_relogins :: "client_event list" where
  "example_relogins =
     [TransportClose, DisconnectSocket, ConnectSocket 1,
      TransportClose, DisconnectSocket, ConnectSocket 1,
      TransportClose, DisconnectSocket, ConnectSocket 1,
      TransportClose, DisconnectSocket, ConnectSocket 1,
      TransportClose, DisconnectSocket, ConnectSocket 1,
      TransportClose, DisconnectSocket, ConnectSocket 1,
      TransportClose]"

text \<open>Envelopes: one of a given type with every field any case reads, and the
  \<open>authenticate\<close> envelope of a user id.\<close>

definition example_payload :: "string \<Rightarrow> payload" where
  "example_payload t =
     \<lparr>p_type = t, p_conversationId = Some 7, p_message = Some (JString ''hi''),
      p_messageId = Some 5, p_content = Some ''edited'', p_emoji = Some ''+1'',
      p_attachments = None\<rparr>"

definition example_authenticate :: "int \<Rightarrow> payload" where
  "example_authenticate n =
     \<lparr>p_type = ''authenticate'', p_conversationId = None, p_message = Some (JNumber (Num n)),
      p_messageId = None, p_content = None, p_emoji = None, p_attachments = None\<rparr>"

text \<open>A message envelope that carries an attachment and the empty string as its text,
  as the message input sends it for a message of attachments only.\<close>

definition example_attachments_only :: payload where
  "example_attachments_only =
     \<lparr>p_type = ''message'', p_conversationId = Some 7, p_message = Some (JString ''''),
      p_messageId = None, p_content = None, p_emoji = None,
      p_attachments = Some [\<lparr>att_name = ''cat.png'', att_type = ''image/png'',
                              att_url = ''/uploads/cat.png'', att_size = Some 2048\<rparr>]\<rparr>"

text \<open>A gateway nobody has connected to yet, and the state after connection 10 and
  then connection 50 have connected and authenticated as user 1.\<close>

definition example_fresh_gateway :: gateway where
  "example_fresh_gateway =
     \<lparr>clients = Map.empty, readyState = (\<lambda>ws. CLOSED), userId = (\<lambda>ws. None),
      storage = example_store, sent = []\<rparr>"

definition example_two_logins :: gateway where
  "example_two_logins =
     on_message
       (on_connection
          (on_message (on_connection example_fresh_gateway 10) 10 (Some (example_authenticate 1)))
          50)
       50 (Some (example_authenticate 1))"

section \<open>Notions used in the statements\<close>

text \<open>Whether an array already holds the reaction of this user with this emoji (the
  \<open>findIndex\<close> test), and the array a call of \<open>addReactionToMessage\<close> writes.\<close>

definition has_reaction :: "stored_reaction list \<Rightarrow> message_reaction \<Rightarrow> bool" where
  "has_reaction rs reaction =
     (find (\<lambda>r. sr_userId r = mr_userId reaction \<and> sr_emoji r = mr_emoji reaction) rs \<noteq> None)"

definition updated_reactions :: "stored_reaction list \<Rightarrow> message_reaction \<Rightarrow> stored_reaction list" where
  "updated_reactions rs reaction =
     (if has_reaction rs reaction then rs
      else rs @ [\<lparr>sr_emoji = mr_emoji reaction, sr_userId = mr_userId reaction\<rparr>])"

text \<open>How many queued messages a drain hands to the transport: all of them, or as
  many as there are sends before the first one that throws.\<close>

fun sends_before_fault :: "bool list \<Rightarrow> nat \<Rightarrow> nat" where
  "sends_before_fault fs 0 = 0"
| "sends_before_fault [] (Suc n) = Suc n"
| "sends_before_fault (f # fs) (Suc n) = (if f then 0 else Suc (sends_before_fault fs n))"

definition drained :: "client \<Rightarrow> nat" where
  "drained c = sends_before_fault (send_faults c) (length (messageQueue c))"

text \<open>
  The reconnect timer. \<open>attempts_used\<close> counts the attempts made, and one more while
  \<open>socketReconnectTimer\<close> is set. \<open>timer_inv\<close>: no timeout is pending, or exactly one
  is, it is the one \<open>socketReconnectTimer\<close> holds and its delay is
  \<open>RECONNECT_DELAY_MS\<close>; and the attempts used do not exceed the maximum.
  \<open>retrying\<close> are the events that leave a pending timeout to expire: anything but
  the transport opening the socket and the application calling \<open>disconnectSocket\<close>,
  which both cancel it.
\<close>

definition attempts_used :: "client \<Rightarrow> nat" where
  "attempts_used c =
     reconnectAttempts c + (case socketReconnectTimer c of None \<Rightarrow> 0 | Some h \<Rightarrow> 1)"

definition timer_inv :: "client \<Rightarrow> bool" where
  "timer_inv c =
     ((case timers c of
         [] \<Rightarrow> True
       | [t] \<Rightarrow> socketReconnectTimer c = Some (fst t) \<and> snd t = RECONNECT_DELAY_MS
       | _ \<Rightarrow> False) \<and>
      attempts_used c \<le> MAX_RECONNECT_ATTEMPTS)"

definition retrying :: "client_event \<Rightarrow> bool" where
  "retrying e = (e \<noteq> TransportOpen \<and> e \<noteq> DisconnectSocket)"

text \<open>The timeouts set between two states of a run.\<close>

definition newly_scheduled :: "client \<Rightarrow> client \<Rightarrow> (nat \<times> nat) list" where
  "newly_scheduled c c' = drop (length (scheduled c)) (scheduled c')"

text \<open>The part of the client state the reconnect logic reads and writes, and the
  relation between a state and a later one of a run of retrying events: the invariant
  holds again, the attempt counter has not gone down, and every timeout set in between
  has the fixed delay and is paid for by the attempts used.\<close>

definition timer_view :: "client \<Rightarrow> nat option \<times> nat \<times> (nat \<times> nat) list \<times> (nat \<times> nat) list \<times> nat" where
  "timer_view c = (socketReconnectTimer c, reconnectAttempts c, timers c, scheduled c, next_handle c)"

definition progress :: "client \<Rightarrow> client \<Rightarrow> bool" where
  "progress c c' =
     (timer_inv c' \<and> reconnectAttempts c \<le> reconnectAttempts c' \<and>
      (\<exists>new. scheduled c' = scheduled c @ new \<and> (\<forall>t \<in> set new. snd t = RECONNECT_DELAY_MS) \<and>
         length new + attempts_used c \<le> attempts_used c'))"

text \<open>The same relation when up to \<open>k\<close> pending timeouts were cancelled in between
  before their attempt was counted.\<close>

definition progress_refunded :: "nat \<Rightarrow> client \<Rightarrow> client \<Rightarrow> bool" where
  "progress_refunded k c c' =
     (timer_inv c' \<and> reconnectAttempts c \<le> reconnectAttempts c' \<and>
      (\<exists>new. scheduled c' = scheduled c @ new \<and> (\<forall>t \<in> set new. snd t = RECONNECT_DELAY_MS) \<and>
         length new + attempts_used c \<le> attempts_used c' + k))"

text \<open>The envelope types whose case tests the user id and answers a connection
  without one, and the text of the answer.\<close>

definition zero_rejection :: "payload \<Rightarrow> string" where
  "zero_rejection q =
     (if p_type q = ''message'' then ''Not authenticated''
      else if p_type q = ''edit_message'' then ''Invalid message edit format''
      else if p_type q = ''add_reaction'' then ''Invalid reaction format''
      else ''Invalid reaction removal format'')"

definition needs_user :: "payload \<Rightarrow> bool" where
  "needs_user q = (p_type q \<in> set [''message'', ''edit_message'', ''add_reaction'', ''remove_reaction''])"

text \<open>The message a \<open>message\<close> envelope persists, as \<open>createMessage\<close> returns it: the
  inserted row with the public profile of the sender's row.\<close>

definition saved_message :: "gateway \<Rightarrow> int \<Rightarrow> int \<Rightarrow> js_value \<Rightarrow> attachment list option \<Rightarrow> user \<Rightarrow> message_with_sender" where
  "saved_message s uid cid content atts usr =
     with_sender
       \<lparr>msg_id = messages_seq (storage s), msg_conversationId = cid, msg_senderId = uid,
        msg_content = content_text content, msg_createdAt = Some (clock (storage s)),
        msg_updatedAt = None, isEdited = Some False,
        msg_attachments = Some (case atts of None \<Rightarrow> [] | Some as \<Rightarrow> as),
        msg_reactions = None\<rparr>
       (user_public.truncate usr)"


text \<open>The validation failures of an envelope: a \<open>message\<close> with neither text nor
  attachments, no text in an \<open>edit_message\<close>, no emoji in a reaction, and, for an edit
  or a reaction, no message id or an id, within the range of the column, that no stored
  message has.\<close>

definition validation_failure :: "gateway \<Rightarrow> payload \<Rightarrow> bool" where
  "validation_failure s p =
     ((p_type p = ''message'' \<and> \<not> truthy_value (p_message p) \<and>
       (case p_attachments p of None \<Rightarrow> True | Some as \<Rightarrow> as = [])) \<or>
      (p_type p = ''edit_message'' \<and> \<not> truthy_string (p_content p)) \<or>
      (p_type p \<in> set [''add_reaction'', ''remove_reaction''] \<and> \<not> truthy_string (p_emoji p)) \<or>
      (p_type p \<in> set [''edit_message'', ''add_reaction'', ''remove_reaction''] \<and>
       (case p_messageId p of
          None \<Rightarrow> True
        | Some mid \<Rightarrow>
            int4 mid \<and> find (\<lambda>m. msg_id m = mid) (messages (storage s)) = None)))"

section \<open>Reactions are idempotent\<close>

lemma find_msg_id: "find (\<lambda>m. msg_id m = mid) ms = Some m \<Longrightarrow> msg_id m = mid"
  by (induction ms) (simp_all split: if_splits)

lemma find_map_reactions:
  "find (\<lambda>m. msg_id m = mid)
        (map (\<lambda>m. if msg_id m = mid' then m\<lparr>msg_reactions := Some rs\<rparr> else m) ms) =
     map_option (\<lambda>m. if msg_id m = mid' then m\<lparr>msg_reactions := Some rs\<rparr> else m)
       (find (\<lambda>m. msg_id m = mid) ms)"
  by (induction ms) simp_all

lemma select_sender_set_reactions:
  "select_sender (set_reactions st mid rs) uid = select_sender st uid"
  by (simp add: select_sender_def set_reactions_def)

lemma find_after_set_reactions:
  "find (\<lambda>m. msg_id m = mid) (messages st) = Some m \<Longrightarrow>
   find (\<lambda>m. msg_id m = mid) (messages (set_reactions st mid rs)) =
     Some (m\<lparr>msg_reactions := Some rs\<rparr>)"
  by (frule find_msg_id) (simp add: set_reactions_def find_map_reactions)

lemma reactions_of_set_reactions:
  "find (\<lambda>m. msg_id m = mid) (messages st) = Some m \<Longrightarrow>
   reactions_of (set_reactions st mid rs) mid = rs"
  by (simp add: reactions_of_def find_after_set_reactions current_reactions_def)

lemma has_updated_reactions: "has_reaction (updated_reactions rs reaction) reaction"
proof (cases "has_reaction rs reaction")
  case True
  then show ?thesis by (simp add: updated_reactions_def)
next
  case False
  let ?new = "\<lparr>sr_emoji = mr_emoji reaction, sr_userId = mr_userId reaction\<rparr>"
  have "\<exists>r \<in> set (rs @ [?new]). sr_userId r = mr_userId reaction \<and> sr_emoji r = mr_emoji reaction"
    by simp
  then have "has_reaction (rs @ [?new]) reaction"
    unfolding has_reaction_def find_None_iff by blast
  with False show ?thesis by (simp add: updated_reactions_def)
qed

lemma updated_reactions_twice:
  "updated_reactions (updated_reactions rs reaction) reaction = updated_reactions rs reaction"
  using has_updated_reactions [of rs reaction]
  by (simp add: updated_reactions_def [of "updated_reactions rs reaction"])

lemma select_message_found:
  "find (\<lambda>m. msg_id m = mid) (messages st) = Some m \<Longrightarrow> select_message st mid = Inr (Some m)"
  by (simp add: select_message_def)

text \<open>What a call does to a store that holds the message.\<close>

lemma addReactionToMessage_eq:
  assumes "find (\<lambda>m. msg_id m = mid) (messages st) = Some m"
  shows "addReactionToMessage st mid reaction =
           (set_reactions st mid (updated_reactions (current_reactions m) reaction),
            Inr (map_option
                   (with_sender (m\<lparr>msg_reactions :=
                                     Some (updated_reactions (current_reactions m) reaction)\<rparr>))
                   (select_sender st (msg_senderId m))))"
proof -
  define R where "R = updated_reactions (current_reactions m) reaction"
  have R: "(if find (\<lambda>r. sr_userId r = mr_userId reaction \<and> sr_emoji r = mr_emoji reaction)
                  (current_reactions m) \<noteq> None
            then current_reactions m
            else current_reactions m @
                   [\<lparr>sr_emoji = mr_emoji reaction, sr_userId = mr_userId reaction\<rparr>]) = R"
    by (simp add: R_def updated_reactions_def has_reaction_def)
  have after: "find (\<lambda>m. msg_id m = mid) (messages (set_reactions st mid R)) =
                 Some (m\<lparr>msg_reactions := Some R\<rparr>)"
    by (rule find_after_set_reactions [OF assms])
  have "addReactionToMessage st mid reaction =
          (case find (\<lambda>m. msg_id m = mid) (messages (set_reactions st mid R)) of
             None \<Rightarrow> (set_reactions st mid R, Inr None)
           | Some updatedMessage \<Rightarrow>
               (case select_sender (set_reactions st mid R) (msg_senderId updatedMessage) of
                  None \<Rightarrow> (set_reactions st mid R, Inr None)
                | Some s \<Rightarrow> (set_reactions st mid R, Inr (Some (with_sender updatedMessage s)))))"
    unfolding addReactionToMessage_def Let_def select_message_found [OF assms] sum.case
      option.case R ..
  also have "\<dots> = (set_reactions st mid R,
                    Inr (map_option (with_sender (m\<lparr>msg_reactions := Some R\<rparr>))
                           (select_sender st (msg_senderId m))))"
    unfolding after option.case select_sender_set_reactions
    by (cases "select_sender st (msg_senderId m)") simp_all
  finally show ?thesis unfolding R_def .
qed

text \<open>
  C3. For a message the store holds, whose sender has a row, a second
  \<open>addReactionToMessage\<close> with the same message id, user and emoji leaves the store
  as the first call left it and returns the same message, which is a result and
  neither \<open>undefined\<close> nor an exception; after both calls the reaction array is the original one when it already
  held the reaction, and the original one with the single new entry appended when it
  did not, so that it grows by one entry in total.
\<close>

theorem addReactionToMessage_idempotent:
  assumes "find (\<lambda>m. msg_id m = messageId) (messages st) = Some m"
    and "select_sender st (msg_senderId m) = Some s"
  shows "fst (addReactionToMessage (fst (addReactionToMessage st messageId reaction))
                messageId reaction)
           = fst (addReactionToMessage st messageId reaction)
       \<and> snd (addReactionToMessage (fst (addReactionToMessage st messageId reaction))
                messageId reaction)
           = snd (addReactionToMessage st messageId reaction)
       \<and> (\<exists>result. snd (addReactionToMessage st messageId reaction) = Inr (Some result))
       \<and> reactions_of (fst (addReactionToMessage
                               (fst (addReactionToMessage st messageId reaction))
                               messageId reaction)) messageId =
           (if has_reaction (reactions_of st messageId) reaction then reactions_of st messageId
            else reactions_of st messageId @
                   [\<lparr>sr_emoji = mr_emoji reaction, sr_userId = mr_userId reaction\<rparr>])"
proof -
  let ?R = "updated_reactions (current_reactions m) reaction"
  let ?st1 = "set_reactions st messageId ?R"
  let ?m1 = "m\<lparr>msg_reactions := Some ?R\<rparr>"
  have first: "addReactionToMessage st messageId reaction =
                 (?st1, Inr (map_option (with_sender ?m1) (select_sender st (msg_senderId m))))"
    by (rule addReactionToMessage_eq [OF assms(1)])
  have found: "find (\<lambda>m. msg_id m = messageId) (messages ?st1) = Some ?m1"
    by (rule find_after_set_reactions [OF assms(1)])
  have cur: "current_reactions ?m1 = ?R"
    by (simp add: current_reactions_def)
  have again: "set_reactions ?st1 messageId ?R = ?st1"
    by (simp add: set_reactions_def comp_def)
  have second: "addReactionToMessage ?st1 messageId reaction =
                  (?st1, Inr (map_option (with_sender ?m1) (select_sender st (msg_senderId m))))"
    unfolding addReactionToMessage_eq [OF found] cur updated_reactions_twice again
      select_sender_set_reactions
    by simp
  have before: "reactions_of st messageId = current_reactions m"
    by (simp add: reactions_of_def assms(1))
  have after: "reactions_of ?st1 messageId = ?R"
    by (rule reactions_of_set_reactions [OF assms(1)])
  show ?thesis
    unfolding first second fst_conv snd_conv before after assms(2)
    by (simp add: updated_reactions_def)
qed

theorem addReactionToMessage_idempotent_witness:
  "find (\<lambda>m. msg_id m = 5) (messages example_store) \<noteq> None
   \<and> select_sender example_store 1 \<noteq> None
   \<and> reactions_of
         (fst (addReactionToMessage
                 (fst (addReactionToMessage example_store 5
                         \<lparr>mr_messageId = 5, mr_emoji = ''+1'', mr_userId = 2\<rparr>))
                 5 \<lparr>mr_messageId = 5, mr_emoji = ''+1'', mr_userId = 2\<rparr>)) 5
       = [\<lparr>sr_emoji = ''+1'', sr_userId = 2\<rparr>]"
proof -
  let ?m = "\<lparr>msg_id = 5, msg_conversationId = 7, msg_senderId = 1,
             msg_content = ''hello'', msg_createdAt = Some 200, msg_updatedAt = None,
             isEdited = Some False, msg_attachments = Some [], msg_reactions = None\<rparr>"
  have m: "find (\<lambda>m. msg_id m = 5) (messages example_store) = Some ?m"
    by (simp add: example_store_def)
  have s: "select_sender example_store (msg_senderId ?m) =
             Some (user_public.truncate (example_user 1 ''ann''))"
    by (simp add: select_sender_def example_store_def example_user_def)
  have r: "reactions_of example_store 5 = []"
    by (simp add: reactions_of_def m current_reactions_def)
  have sender: "select_sender example_store 1 \<noteq> None"
    using s by simp
  let ?r = "\<lparr>mr_messageId = 5, mr_emoji = ''+1'', mr_userId = 2\<rparr>"
  have "reactions_of (fst (addReactionToMessage (fst (addReactionToMessage example_store 5 ?r))
                             5 ?r)) 5 =
          (if has_reaction (reactions_of example_store 5) ?r then reactions_of example_store 5
           else reactions_of example_store 5 @
                  [\<lparr>sr_emoji = mr_emoji ?r, sr_userId = mr_userId ?r\<rparr>])"
    using addReactionToMessage_idempotent [OF m s, of ?r] by blast
  also have "\<dots> = [\<lparr>sr_emoji = ''+1'', sr_userId = 2\<rparr>]"
    by (simp add: r has_reaction_def)
  finally show ?thesis
    using m sender by simp
qed

section \<open>The outbound queue is replayed in order\<close>

lemma sends_before_fault_Nil: "sends_before_fault [] n = n"
  by (cases n) simp_all

lemma drain_Nil: "messageQueue c = [] \<Longrightarrow> drain c = c"
  by (subst drain.simps) simp

lemma drain_Cons_ok:
  "messageQueue c = m # q \<Longrightarrow> socket_send (c\<lparr>messageQueue := q\<rparr>) (Action m) = (c', True) \<Longrightarrow>
   drain c = drain c'"
  by (subst drain.simps) simp

lemma drain_Cons_fail:
  "messageQueue c = m # q \<Longrightarrow> socket_send (c\<lparr>messageQueue := q\<rparr>) (Action m) = (c', False) \<Longrightarrow>
   drain c = c'\<lparr>messageQueue := m # messageQueue c'\<rparr>"
  by (subst drain.simps) simp

lemma drain_wire_queue:
  "wire (drain c) = wire c @ map Action (take (drained c) (messageQueue c)) \<and>
   messageQueue (drain c) = drop (drained c) (messageQueue c)"
proof (induction "messageQueue c" arbitrary: c)
  case Nil
  then show ?case by (simp add: drain_Nil [OF Nil [symmetric]] drained_def)
next
  case (Cons m q)
  note mq = Cons.hyps(2) [symmetric]
  show ?case
  proof (cases "send_faults c")
    case Nil
    let ?c' = "c\<lparr>messageQueue := q, wire := wire c @ [Action m]\<rparr>"
    have snd: "socket_send (c\<lparr>messageQueue := q\<rparr>) (Action m) = (?c', True)"
      by (simp add: socket_send_def Nil)
    have ih: "wire (drain ?c') = wire ?c' @ map Action (take (drained ?c') (messageQueue ?c')) \<and>
        messageQueue (drain ?c') = drop (drained ?c') (messageQueue ?c')"
      by (rule Cons.hyps(1)) simp
    have d: "drained c = Suc (drained ?c')"
      by (simp add: drained_def mq Nil sends_before_fault_Nil)
    show ?thesis
      unfolding drain_Cons_ok [OF mq snd] d using ih by (simp add: mq)
  next
    case (Cons f fs)
    show ?thesis
    proof (cases f)
      case True
      let ?c' = "c\<lparr>messageQueue := q, send_faults := fs\<rparr>"
      have snd: "socket_send (c\<lparr>messageQueue := q\<rparr>) (Action m) = (?c', False)"
        by (simp add: socket_send_def Cons True)
      have d: "drained c = 0"
        by (simp add: drained_def mq Cons True)
      show ?thesis
        unfolding drain_Cons_fail [OF mq snd] d by (simp add: mq)
    next
      case False
      let ?c' = "c\<lparr>messageQueue := q, send_faults := fs, wire := wire c @ [Action m]\<rparr>"
      have snd: "socket_send (c\<lparr>messageQueue := q\<rparr>) (Action m) = (?c', True)"
        by (simp add: socket_send_def Cons False)
      have ih: "wire (drain ?c') = wire ?c' @ map Action (take (drained ?c') (messageQueue ?c')) \<and>
          messageQueue (drain ?c') = drop (drained ?c') (messageQueue ?c')"
        by (rule Cons.hyps(1)) simp
      have d: "drained c = Suc (drained ?c')"
        by (simp add: drained_def mq Cons False)
      show ?thesis
        unfolding drain_Cons_ok [OF mq snd] d using ih by (simp add: mq)
    qed
  qed
qed


lemma sends_before_fault_le: "sends_before_fault fs n \<le> n"
  by (induction fs n rule: sends_before_fault.induct) simp_all

lemma sends_before_fault_throws:
  "sends_before_fault fs n < n \<Longrightarrow>
   sends_before_fault fs n < length fs \<and> fs ! sends_before_fault fs n"
  by (induction fs n rule: sends_before_fault.induct) (simp_all split: if_splits)

text \<open>An action submitted while the socket is not open goes to the end of the queue.\<close>

lemma queue_and_reconnect_appends:
  "messageQueue (fst (queue_and_reconnect c m)) = messageQueue c @ [m]"
  by (simp add: queue_and_reconnect_def reconnectSocket_def setTimeout_def Let_def)

text \<open>
  C6. Draining the queue on an open socket hands the queued messages to the transport
  in the order they were queued, one after the other, up to the first send that
  throws: the envelopes put on the wire are a prefix of the queue, the rest of the
  queue stays in its order, and the message whose send threw is its head again. A
  socket that is not open drains nothing. The transport therefore sees queued
  messages in submission order only.
\<close>

theorem processMessageQueue_fifo:
  "(is_open c \<longrightarrow>
      wire (processMessageQueue c) = wire c @ map Action (take (drained c) (messageQueue c)) \<and>
      messageQueue (processMessageQueue c) = drop (drained c) (messageQueue c)) \<and>
   (\<not> is_open c \<longrightarrow> processMessageQueue c = c) \<and>
   drained c \<le> length (messageQueue c) \<and>
   (drained c < length (messageQueue c) \<longrightarrow>
      drained c < length (send_faults c) \<and> send_faults c ! drained c \<and>
      (is_open c \<longrightarrow>
         hd (messageQueue (processMessageQueue c)) = messageQueue c ! drained c))"
proof -
  have sent: "wire (processMessageQueue c) =
                wire c @ map Action (take (drained c) (messageQueue c)) \<and>
              messageQueue (processMessageQueue c) = drop (drained c) (messageQueue c)"
    if "is_open c"
  proof (cases "messageQueue c = []")
    case True
    then show ?thesis by (simp add: processMessageQueue_def)
  next
    case False
    with that have "processMessageQueue c = drain c" by (simp add: processMessageQueue_def)
    then show ?thesis by (simp add: drain_wire_queue)
  qed
  have closed: "processMessageQueue c = c" if "\<not> is_open c"
    using that by (simp add: processMessageQueue_def)
  have bound: "drained c \<le> length (messageQueue c)"
    by (simp add: drained_def sends_before_fault_le)
  have threw: "drained c < length (send_faults c) \<and> send_faults c ! drained c"
    if "drained c < length (messageQueue c)"
    using that sends_before_fault_throws [of "send_faults c" "length (messageQueue c)"]
    by (simp add: drained_def)
  have head: "hd (messageQueue (processMessageQueue c)) = messageQueue c ! drained c"
    if "drained c < length (messageQueue c)" "is_open c"
    using that sent by (simp add: hd_drop_conv_nth)
  from sent closed bound threw head show ?thesis by blast
qed

theorem processMessageQueue_fifo_witness:
  "is_open example_client \<and> drained example_client = 1
   \<and> wire (processMessageQueue example_client) = [Action (QMessage 7 ''m1'' None)]
   \<and> messageQueue (processMessageQueue example_client) =
       [QEditMessage 5 ''m2'', QAddReaction 5 ''m3'']
   \<and> hd (messageQueue (processMessageQueue example_client)) = QEditMessage 5 ''m2''"
proof -
  have o: "is_open example_client"
    by (simp add: is_open_def example_client_def)
  have d: "drained example_client = 1"
    by (simp add: drained_def example_client_def)
  have q: "messageQueue example_client =
             [QMessage 7 ''m1'' None, QEditMessage 5 ''m2'', QAddReaction 5 ''m3'']"
    and w: "wire example_client = []"
    by (simp_all add: example_client_def)
  show ?thesis
    using processMessageQueue_fifo [of example_client] o
    unfolding d q w by simp
qed

section \<open>Reconnection is bounded\<close>

lemma view_fields:
  assumes "timer_view c' = timer_view c"
  shows "socketReconnectTimer c' = socketReconnectTimer c" "reconnectAttempts c' = reconnectAttempts c"
    "timers c' = timers c" "scheduled c' = scheduled c" "next_handle c' = next_handle c"
  using assms by (simp_all add: timer_view_def)

lemma attempts_used_view:
  assumes v: "timer_view c' = timer_view c"
  shows "attempts_used c' = attempts_used c"
  unfolding attempts_used_def by (simp only: view_fields [OF v])

lemma timer_inv_view:
  assumes v: "timer_view c' = timer_view c"
  shows "timer_inv c' = timer_inv c"
  unfolding timer_inv_def by (simp only: view_fields [OF v] attempts_used_view [OF v])

lemma progress_refl: "timer_inv c \<Longrightarrow> progress c c"
  unfolding progress_def by simp

lemma progress_from_view:
  assumes v: "timer_view c0 = timer_view c" and p: "progress c0 c'"
  shows "progress c c'"
  using p unfolding progress_def by (simp only: view_fields [OF v] attempts_used_view [OF v])

lemma progress_to_view:
  assumes v: "timer_view c'' = timer_view c'" and p: "progress c c'"
  shows "progress c c''"
  using p unfolding progress_def
  by (simp only: view_fields [OF v] timer_inv_view [OF v] attempts_used_view [OF v])

lemma progress_view: "timer_inv c \<Longrightarrow> timer_view c' = timer_view c \<Longrightarrow> progress c c'"
  by (rule progress_to_view [of c' c c]) (simp_all add: progress_refl)

lemma progress_trans:
  assumes "progress a b" and "progress b c"
  shows "progress a c"
proof -
  from assms(1) obtain new where
    1: "reconnectAttempts a \<le> reconnectAttempts b" "scheduled b = scheduled a @ new"
       "\<forall>t \<in> set new. snd t = RECONNECT_DELAY_MS"
       "length new + attempts_used a \<le> attempts_used b"
    unfolding progress_def by blast
  from assms(2) obtain new' where
    2: "timer_inv c" "reconnectAttempts b \<le> reconnectAttempts c" "scheduled c = scheduled b @ new'"
       "\<forall>t \<in> set new'. snd t = RECONNECT_DELAY_MS"
       "length new' + attempts_used b \<le> attempts_used c"
    unfolding progress_def by blast
  have "scheduled c = scheduled a @ (new @ new')" using 1(2) 2(3) by simp
  moreover have "\<forall>t \<in> set (new @ new'). snd t = RECONNECT_DELAY_MS" using 1(3) 2(4) by auto
  moreover have "length (new @ new') + attempts_used a \<le> attempts_used c"
    using 1(4) 2(5) by simp
  moreover have "reconnectAttempts a \<le> reconnectAttempts c" using 1(1) 2(2) by simp
  ultimately show ?thesis unfolding progress_def using 2(1) by blast
qed

lemma view_socket_send: "timer_view (fst (socket_send c env)) = timer_view c"
  by (simp add: socket_send_def timer_view_def split: list.splits)

lemma view_sendAuthMessage: "timer_view (fst (sendAuthMessage c uid)) = timer_view c"
  by (simp add: sendAuthMessage_def view_socket_send)

lemma view_drain: "timer_view (drain c) = timer_view c"
proof (induction c rule: drain.induct)
  case (1 c)
  show ?case
  proof (cases "messageQueue c")
    case Nil
    then show ?thesis by (subst drain.simps) simp
  next
    case (Cons m q)
    obtain c' ok where s: "socket_send (c\<lparr>messageQueue := q\<rparr>) (Action m) = (c', ok)"
      by (cases "socket_send (c\<lparr>messageQueue := q\<rparr>) (Action m)")
    have v: "timer_view c' = timer_view c"
      using view_socket_send [of "c\<lparr>messageQueue := q\<rparr>" "Action m"] s
      by (simp add: timer_view_def)
    show ?thesis
    proof (cases ok)
      case True
      have "timer_view (drain c') = timer_view c'"
        using "1.IH" [OF Cons s [symmetric]] True by simp
      with v show ?thesis
        by (subst drain.simps) (simp add: Cons s True)
    next
      case False
      with v show ?thesis
        by (subst drain.simps) (simp add: Cons s timer_view_def)
    qed
  qed
qed

lemma view_processMessageQueue: "timer_view (processMessageQueue c) = timer_view c"
  by (simp add: processMessageQueue_def view_drain)

lemma view_connectSocket: "timer_view (fst (connectSocket c uid)) = timer_view c"
proof -
  let ?c1 = "c\<lparr>currentUserId := uid\<rparr>"
  have v1: "timer_view ?c1 = timer_view c" by (simp add: timer_view_def)
  obtain c2 ok where a: "sendAuthMessage ?c1 uid = (c2, ok)"
    by (cases "sendAuthMessage ?c1 uid")
  have v2: "timer_view c2 = timer_view c"
    using view_sendAuthMessage [of ?c1 uid] a v1 by simp
  show ?thesis
    unfolding connectSocket_def Let_def
    using v2 view_processMessageQueue [of c2]
    by (simp add: a) (simp add: timer_view_def)
qed

lemma progress_reconnectSocket: "timer_inv c \<Longrightarrow> progress c (reconnectSocket c)"
proof -
  assume inv: "timer_inv c"
  show ?thesis
  proof (cases "socketReconnectTimer c \<noteq> None \<or> \<not> truthy_int (currentUserId c) \<or>
                \<not> reconnectAttempts c < MAX_RECONNECT_ATTEMPTS")
    case True
    then have "reconnectSocket c = c" by (auto simp: reconnectSocket_def)
    with inv show ?thesis by (simp add: progress_view)
  next
    case False
    then have none: "socketReconnectTimer c = None" and lt: "reconnectAttempts c < MAX_RECONNECT_ATTEMPTS"
      and tr: "truthy_int (currentUserId c)" by auto
    from inv none have t: "timers c = []"
      by (auto simp: timer_inv_def split: list.splits)
    have r: "reconnectSocket c =
               c\<lparr>timers := [(next_handle c, RECONNECT_DELAY_MS)],
                 scheduled := scheduled c @ [(next_handle c, RECONNECT_DELAY_MS)],
                 next_handle := next_handle c + 1,
                 socketReconnectTimer := Some (next_handle c)\<rparr>"
      using none lt tr by (simp add: reconnectSocket_def setTimeout_def Let_def t)
    show ?thesis
      unfolding r progress_def using lt t none
      by (simp add: timer_inv_def attempts_used_def)
  qed
qed

lemma progress_maybe_reconnect:
  assumes inv: "timer_inv c" and v: "timer_view c2 = timer_view c"
  shows "progress c (if b then reconnectSocket c2 else c2)"
proof (cases b)
  case True
  have "timer_inv c2" using inv timer_inv_view [OF v] by simp
  then have "progress c2 (reconnectSocket c2)" by (rule progress_reconnectSocket)
  then have "progress c (reconnectSocket c2)" by (rule progress_from_view [OF v])
  with True show ?thesis by simp
next
  case False
  with progress_view [OF inv v] show ?thesis by simp
qed

lemma progress_queue_and_reconnect:
  assumes inv: "timer_inv c"
  shows "progress c (fst (queue_and_reconnect c m))"
proof -
  let ?c1 = "c\<lparr>messageQueue := messageQueue c @ [m]\<rparr>"
  have v: "timer_view ?c1 = timer_view c" by (simp add: timer_view_def)
  show ?thesis
    unfolding queue_and_reconnect_def Let_def fst_conv
    by (rule progress_maybe_reconnect [OF inv v])
qed

lemma progress_send_failed:
  assumes inv: "timer_inv c" and s: "socket_send c env = (c1, ok)"
  shows "progress c (if b then reconnectSocket (c1\<lparr>messageQueue := messageQueue c1 @ [m]\<rparr>)
                     else c1\<lparr>messageQueue := messageQueue c1 @ [m]\<rparr>)"
proof -
  have "timer_view c1 = timer_view c" using view_socket_send [of c env] s by simp
  then have v: "timer_view (c1\<lparr>messageQueue := messageQueue c1 @ [m]\<rparr>) = timer_view c"
    by (simp add: timer_view_def)
  show ?thesis by (rule progress_maybe_reconnect [OF inv v])
qed

lemma progress_send_ok:
  assumes inv: "timer_inv c" and s: "socket_send c env = (c1, ok)"
  shows "progress c c1"
proof -
  have "timer_view c1 = timer_view c" using view_socket_send [of c env] s by simp
  then show ?thesis by (rule progress_view [OF inv])
qed

lemma progress_sendMessage:
  assumes inv: "timer_inv c"
  shows "progress c (fst (sendMessage c cid msg as))"
proof (cases "is_open c")
  case False
  then show ?thesis
    by (simp add: sendMessage_def progress_queue_and_reconnect [OF inv])
next
  case True
  obtain c1 ok where s: "socket_send c (Action (QMessage cid msg as)) = (c1, ok)"
    by (cases "socket_send c (Action (QMessage cid msg as))")
  show ?thesis
    using True progress_send_ok [OF inv s] progress_send_failed [OF inv s]
    by (simp add: sendMessage_def s Let_def)
qed

lemma progress_editMessage:
  assumes inv: "timer_inv c"
  shows "progress c (fst (editMessage c mid content))"
proof (cases "is_open c")
  case False
  then show ?thesis
    by (simp add: editMessage_def progress_queue_and_reconnect [OF inv])
next
  case True
  obtain c1 ok where s: "socket_send c (Action (QEditMessage mid content)) = (c1, ok)"
    by (cases "socket_send c (Action (QEditMessage mid content))")
  show ?thesis
    using True progress_send_ok [OF inv s] progress_send_failed [OF inv s]
    by (simp add: editMessage_def s Let_def)
qed

lemma progress_addReaction:
  assumes inv: "timer_inv c"
  shows "progress c (fst (addReaction c mid emoji))"
proof (cases "is_open c")
  case False
  then show ?thesis
    by (simp add: addReaction_def progress_queue_and_reconnect [OF inv])
next
  case True
  obtain c1 ok where s: "socket_send c (Action (QAddReaction mid emoji)) = (c1, ok)"
    by (cases "socket_send c (Action (QAddReaction mid emoji))")
  show ?thesis
    using True progress_send_ok [OF inv s] progress_send_failed [OF inv s]
    by (simp add: addReaction_def s Let_def)
qed

lemma progress_removeReaction:
  assumes inv: "timer_inv c"
  shows "progress c (fst (removeReaction c mid emoji))"
proof (cases "is_open c")
  case False
  then show ?thesis
    by (simp add: removeReaction_def progress_queue_and_reconnect [OF inv])
next
  case True
  obtain c1 ok where s: "socket_send c (Action (QRemoveReaction mid emoji)) = (c1, ok)"
    by (cases "socket_send c (Action (QRemoveReaction mid emoji))")
  show ?thesis
    using True progress_send_ok [OF inv s] progress_send_failed [OF inv s]
    by (simp add: removeReaction_def s Let_def)
qed

lemma progress_sendTypingNotification:
  assumes inv: "timer_inv c"
  shows "progress c (fst (sendTypingNotification c cid))"
proof -
  have "timer_view (fst (sendTypingNotification c cid)) = timer_view c"
    by (simp add: sendTypingNotification_def view_socket_send)
  then show ?thesis by (rule progress_view [OF inv])
qed

lemma progress_socket_onclose:
  assumes inv: "timer_inv c"
  shows "progress c (socket_onclose c)"
proof (cases "socket c")
  case None
  then show ?thesis by (simp add: socket_onclose_def progress_refl [OF inv])
next
  case (Some w)
  have v: "timer_view (c\<lparr>socket := Some (w\<lparr>ws_readyState := CLOSED\<rparr>)\<rparr>) = timer_view c"
    by (simp add: timer_view_def)
  show ?thesis
    using progress_maybe_reconnect [OF inv v, of True]
    by (simp add: socket_onclose_def Some)
qed

lemma progress_stale_onclose:
  "timer_inv c \<Longrightarrow> progress c (stale_onclose c)"
  unfolding stale_onclose_def by (rule progress_reconnectSocket)

lemma progress_connectSocket:
  "timer_inv c \<Longrightarrow> progress c (fst (connectSocket c uid))"
  by (rule progress_view) (simp_all add: view_connectSocket)


lemma timer_inv_pending:
  assumes inv: "timer_inv c" and h: "h \<in> fst ` set (timers c)"
  shows "timers c = [(h, RECONNECT_DELAY_MS)]" "socketReconnectTimer c = Some h"
proof -
  from h obtain t ts where ts: "timers c = t # ts"
    by (cases "timers c") auto
  with inv have e: "ts = []" "socketReconnectTimer c = Some (fst t)" "snd t = RECONNECT_DELAY_MS"
    by (auto simp: timer_inv_def split: list.splits)
  with h ts have "fst t = h" by simp
  with e ts show "timers c = [(h, RECONNECT_DELAY_MS)]" "socketReconnectTimer c = Some h"
    by (auto simp: prod_eq_iff)
qed

lemma progress_timer_fires:
  assumes inv: "timer_inv c"
  shows "progress c (timer_fires c h)"
proof (cases "h \<in> fst ` set (timers c)")
  case False
  then show ?thesis by (simp add: timer_fires_def progress_refl [OF inv])
next
  case True
  note p = timer_inv_pending [OF inv True]
  let ?c0 = "clearTimeout c h"
  obtain c1 ok where cs: "connectSocket ?c0 (currentUserId c) = (c1, ok)"
    by (cases "connectSocket ?c0 (currentUserId c)")
  have v: "timer_view c1 = timer_view ?c0"
    using view_connectSocket [of ?c0 "currentUserId c"] cs by simp
  have f0: "socketReconnectTimer ?c0 = Some h" "reconnectAttempts ?c0 = reconnectAttempts c"
    "timers ?c0 = []" "scheduled ?c0 = scheduled c"
    using p by (simp_all add: clearTimeout_def)
  note f1 = view_fields [OF v, unfolded f0]
  from inv p have le: "reconnectAttempts c + 1 \<le> MAX_RECONNECT_ATTEMPTS"
    by (simp add: timer_inv_def attempts_used_def)
  have used: "attempts_used c = reconnectAttempts c + 1"
    using p by (simp add: attempts_used_def)
  show ?thesis
  proof (cases ok)
    case True
    have r: "timer_fires c h = c1\<lparr>reconnectAttempts := reconnectAttempts c1 + 1,
                                    socketReconnectTimer := None\<rparr>"
      using \<open>h \<in> fst ` set (timers c)\<close> by (simp add: timer_fires_def cs True)
    show ?thesis
      unfolding r progress_def using le used f1
      by (simp add: timer_inv_def attempts_used_def)
  next
    case False
    have r: "timer_fires c h = c1"
      using \<open>h \<in> fst ` set (timers c)\<close> by (simp add: timer_fires_def cs False)
    show ?thesis
      unfolding r progress_def using le used f1
      by (simp add: timer_inv_def attempts_used_def)
  qed
qed

lemma progress_step:
  assumes inv: "timer_inv c" and e: "retrying e"
  shows "progress c (client_step c e)"
proof (cases e)
  case TransportOpen
  with e show ?thesis by (simp add: retrying_def)
next
  case DisconnectSocket
  with e show ?thesis by (simp add: retrying_def)
next
  case TransportClose
  then show ?thesis by (simp add: progress_socket_onclose [OF inv])
next
  case StaleClose
  then show ?thesis by (simp add: progress_stale_onclose [OF inv])
next
  case (TimerFires h)
  then show ?thesis by (simp add: progress_timer_fires [OF inv])
next
  case (SendMessage cid msg as)
  then show ?thesis by (simp add: progress_sendMessage [OF inv])
next
  case (EditMessage mid content)
  then show ?thesis by (simp add: progress_editMessage [OF inv])
next
  case (AddReaction mid emoji)
  then show ?thesis by (simp add: progress_addReaction [OF inv])
next
  case (RemoveReaction mid emoji)
  then show ?thesis by (simp add: progress_removeReaction [OF inv])
next
  case (TypingNotification cid)
  then show ?thesis by (simp add: progress_sendTypingNotification [OF inv])
next
  case (ConnectSocket uid)
  then show ?thesis by (simp add: progress_connectSocket [OF inv])
qed

lemma progress_run:
  assumes "timer_inv c" and "\<forall>e \<in> set es. retrying e"
  shows "progress c (client_run c es)"
  using assms
proof (induction es arbitrary: c)
  case Nil
  then show ?case by (simp add: client_run_def progress_refl)
next
  case (Cons e es)
  from Cons.prems have 1: "progress c (client_step c e)"
    by (simp add: progress_step)
  then have "timer_inv (client_step c e)" by (simp add: progress_def)
  with Cons have "progress (client_step c e) (client_run (client_step c e) es)"
    by simp
  with 1 have "progress c (client_run (client_step c e) es)"
    by (rule progress_trans)
  then show ?case by (simp add: client_run_def)
qed

lemma timer_inv_onopen:
  assumes inv: "timer_inv c"
  shows "timer_inv (socket_onopen c)"
proof (cases "socket c")
  case None
  with inv show ?thesis by (simp add: socket_onopen_def)
next
  case (Some w)
  show ?thesis
  proof (cases "ws_readyState w = CONNECTING")
    case False
    with inv Some show ?thesis by (simp add: socket_onopen_def)
  next
    case True
    let ?c0 = "c\<lparr>socket := Some (w\<lparr>ws_readyState := OPEN\<rparr>), reconnectAttempts := 0\<rparr>"
    have inv0: "timer_inv ?c0"
      using inv by (auto simp: timer_inv_def attempts_used_def MAX_RECONNECT_ATTEMPTS_def
          split: option.splits list.splits)
    obtain c1 ok where a: "sendAuthMessage ?c0 (ws_userId w) = (c1, ok)"
      by (cases "sendAuthMessage ?c0 (ws_userId w)")
    have v1: "timer_view c1 = timer_view ?c0"
      using view_sendAuthMessage [of ?c0 "ws_userId w"] a by simp
    have inv1: "timer_inv c1" using inv0 timer_inv_view [OF v1] by simp
    let ?c2 = "processMessageQueue c1"
    have v2: "timer_view ?c2 = timer_view c1" by (rule view_processMessageQueue)
    have inv2: "timer_inv ?c2" using inv1 timer_inv_view [OF v2] by simp
    have cleared: "timer_inv ((clearTimeout ?c2 h)\<lparr>socketReconnectTimer := None\<rparr>)"
      if "socketReconnectTimer ?c2 = Some h" for h
      using inv2 that
      by (auto simp: timer_inv_def attempts_used_def clearTimeout_def split: list.splits)
    show ?thesis
      using Some True inv1 inv2 cleared
      by (simp add: socket_onopen_def Let_def a split: option.splits)
  qed
qed

lemma timer_inv_disconnectSocket:
  assumes inv: "timer_inv c"
  shows "timer_inv (disconnectSocket c)"
proof -
  let ?c1 = "case socket c of None \<Rightarrow> c | Some w \<Rightarrow> c\<lparr>socket := None\<rparr>"
  have v: "timer_view ?c1 = timer_view c"
    by (simp add: timer_view_def split: option.splits)
  have inv1: "timer_inv ?c1" using inv timer_inv_view [OF v] by simp
  have cleared: "timer_inv ((clearTimeout ?c1 h)\<lparr>socketReconnectTimer := None\<rparr>)"
    if "socketReconnectTimer ?c1 = Some h" for h
    using inv1 that
    by (auto simp: timer_inv_def attempts_used_def clearTimeout_def split: list.splits)
  show ?thesis
    unfolding disconnectSocket_def Let_def
    using inv1 cleared by (simp split: option.splits)
qed

lemma timer_inv_step: "timer_inv c \<Longrightarrow> timer_inv (client_step c e)"
proof (cases "retrying e")
  case True
  assume "timer_inv c"
  from progress_step [OF this True] show ?thesis by (simp add: progress_def)
next
  case False
  assume "timer_inv c"
  with False show ?thesis
    by (auto simp: retrying_def timer_inv_onopen timer_inv_disconnectSocket)
qed

lemma timer_inv_run: "timer_inv c \<Longrightarrow> timer_inv (client_run c es)"
  unfolding client_run_def
  by (induction es arbitrary: c) (simp_all add: timer_inv_step)


lemma onopen_resets:
  assumes "socket c = Some w" and "ws_readyState w = CONNECTING"
  shows "reconnectAttempts (socket_onopen c) = 0"
proof -
  let ?c0 = "c\<lparr>socket := Some (w\<lparr>ws_readyState := OPEN\<rparr>), reconnectAttempts := 0\<rparr>"
  obtain c1 ok where a: "sendAuthMessage ?c0 (ws_userId w) = (c1, ok)"
    by (cases "sendAuthMessage ?c0 (ws_userId w)")
  have v1: "timer_view c1 = timer_view ?c0"
    using view_sendAuthMessage [of ?c0 "ws_userId w"] a by simp
  have r1: "reconnectAttempts c1 = 0"
    using view_fields(2) [OF v1] by simp
  have r2: "reconnectAttempts (processMessageQueue c1) = 0"
    using view_fields(2) [OF view_processMessageQueue [of c1]] r1 by simp
  show ?thesis
    using assms r1 r2
    by (simp add: socket_onopen_def Let_def a clearTimeout_def split: option.splits)
qed

lemma progress_refunded_0: "progress c c' \<Longrightarrow> progress_refunded 0 c c'"
  unfolding progress_def progress_refunded_def by simp

lemma progress_refunded_trans:
  assumes "progress_refunded j a b" and "progress_refunded k b c"
  shows "progress_refunded (j + k) a c"
proof -
  from assms(1) obtain new where
    1: "reconnectAttempts a \<le> reconnectAttempts b" "scheduled b = scheduled a @ new"
       "\<forall>t \<in> set new. snd t = RECONNECT_DELAY_MS"
       "length new + attempts_used a \<le> attempts_used b + j"
    unfolding progress_refunded_def by blast
  from assms(2) obtain new' where
    2: "timer_inv c" "reconnectAttempts b \<le> reconnectAttempts c" "scheduled c = scheduled b @ new'"
       "\<forall>t \<in> set new'. snd t = RECONNECT_DELAY_MS"
       "length new' + attempts_used b \<le> attempts_used c + k"
    unfolding progress_refunded_def by blast
  have "scheduled c = scheduled a @ (new @ new')" using 1(2) 2(3) by simp
  moreover have "\<forall>t \<in> set (new @ new'). snd t = RECONNECT_DELAY_MS" using 1(3) 2(4) by auto
  moreover have "length (new @ new') + attempts_used a \<le> attempts_used c + (j + k)"
    using 1(4) 2(5) by simp
  moreover have "reconnectAttempts a \<le> reconnectAttempts c" using 1(1) 2(2) by simp
  ultimately show ?thesis unfolding progress_refunded_def using 2(1) by blast
qed

text \<open>\<open>disconnectSocket\<close> cancels the pending timeout, if there is one, and leaves the
  attempt counter as it is: the attempt that timeout stood for is never counted.\<close>

lemma disconnectSocket_fields:
  "scheduled (disconnectSocket c) = scheduled c"
  "reconnectAttempts (disconnectSocket c) = reconnectAttempts c"
  "socketReconnectTimer (disconnectSocket c) = None"
  by (simp_all add: disconnectSocket_def Let_def clearTimeout_def split: option.splits)

lemma progress_disconnectSocket:
  assumes inv: "timer_inv c"
  shows "progress_refunded 1 c (disconnectSocket c)"
proof -
  have "attempts_used c \<le> attempts_used (disconnectSocket c) + 1"
    by (simp add: attempts_used_def disconnectSocket_fields split: option.splits)
  then show ?thesis
    unfolding progress_refunded_def
    using timer_inv_disconnectSocket [OF inv] by (simp add: disconnectSocket_fields)
qed

lemma progress_refunded_step:
  assumes inv: "timer_inv c" and e: "e \<noteq> TransportOpen"
  shows "progress_refunded (if e = DisconnectSocket then 1 else 0) c (client_step c e)"
proof (cases "e = DisconnectSocket")
  case True
  with progress_disconnectSocket [OF inv] show ?thesis by simp
next
  case False
  with e have "retrying e" by (simp add: retrying_def)
  from progress_step [OF inv this] False show ?thesis
    by (simp add: progress_refunded_0)
qed

lemma progress_refunded_run:
  assumes "timer_inv c" and "TransportOpen \<notin> set es"
  shows "progress_refunded (count_list es DisconnectSocket) c (client_run c es)"
  using assms
proof (induction es arbitrary: c)
  case Nil
  then show ?case by (simp add: client_run_def progress_refl progress_refunded_0)
next
  case (Cons e es)
  from Cons.prems have e: "e \<noteq> TransportOpen" and es: "TransportOpen \<notin> set es" by auto
  let ?k = "if e = DisconnectSocket then 1 else 0 :: nat"
  have 1: "progress_refunded ?k c (client_step c e)"
    by (rule progress_refunded_step [OF Cons.prems(1) e])
  then have "timer_inv (client_step c e)" by (simp add: progress_refunded_def)
  then have 2: "progress_refunded (count_list es DisconnectSocket) (client_step c e)
                  (client_run (client_step c e) es)"
    using es by (rule Cons.IH)
  have "progress_refunded (?k + count_list es DisconnectSocket) c
          (client_run (client_step c e) es)"
    using 1 2 by (rule progress_refunded_trans)
  moreover have "count_list (e # es) DisconnectSocket = ?k + count_list es DisconnectSocket"
    by simp
  moreover have "client_run c (e # es) = client_run (client_step c e) es"
    by (simp add: client_run_def)
  ultimately show ?case by (simp only:)
qed

text \<open>Once the counter has reached the maximum, no event but an open changes the
  counter or sets a timeout.\<close>

lemma exhausted_idle:
  assumes inv: "timer_inv c" and full: "reconnectAttempts c = MAX_RECONNECT_ATTEMPTS"
  shows "socketReconnectTimer c = None" "timers c = []"
proof -
  from inv full show t: "socketReconnectTimer c = None"
    by (simp add: timer_inv_def attempts_used_def split: option.splits)
  with inv show "timers c = []"
    by (auto simp: timer_inv_def split: list.splits)
qed

lemma exhausted_step:
  assumes inv: "timer_inv c" and full: "reconnectAttempts c = MAX_RECONNECT_ATTEMPTS"
    and e: "e \<noteq> TransportOpen"
  shows "scheduled (client_step c e) = scheduled c \<and>
         reconnectAttempts (client_step c e) = MAX_RECONNECT_ATTEMPTS"
proof (cases "e = DisconnectSocket")
  case True
  with full show ?thesis by (simp add: disconnectSocket_fields)
next
  case False
  with e have "retrying e" by (simp add: retrying_def)
  from progress_step [OF inv this] obtain new where
    inv': "timer_inv (client_step c e)"
    and mono: "reconnectAttempts c \<le> reconnectAttempts (client_step c e)"
    and sch: "scheduled (client_step c e) = scheduled c @ new"
    and pot: "length new + attempts_used c \<le> attempts_used (client_step c e)"
    unfolding progress_def by blast
  from inv' have cap: "attempts_used (client_step c e) \<le> MAX_RECONNECT_ATTEMPTS"
    by (simp add: timer_inv_def)
  from full have "MAX_RECONNECT_ATTEMPTS \<le> attempts_used c"
    by (simp add: attempts_used_def)
  with pot cap have "length new = 0" by linarith
  moreover from mono full cap have "reconnectAttempts (client_step c e) = MAX_RECONNECT_ATTEMPTS"
    by (simp add: attempts_used_def)
  ultimately show ?thesis using sch by simp
qed

lemma exhausted_run:
  assumes "timer_inv c" and "reconnectAttempts c = MAX_RECONNECT_ATTEMPTS"
    and "TransportOpen \<notin> set es"
  shows "scheduled (client_run c es) = scheduled c \<and>
         reconnectAttempts (client_run c es) = MAX_RECONNECT_ATTEMPTS"
  using assms
proof (induction es arbitrary: c)
  case Nil
  then show ?case by (simp add: client_run_def)
next
  case (Cons e es)
  from Cons.prems have e: "e \<noteq> TransportOpen" and es: "TransportOpen \<notin> set es" by auto
  note s = exhausted_step [OF Cons.prems(1,2) e]
  have inv: "timer_inv (client_step c e)" by (rule timer_inv_step [OF Cons.prems(1)])
  from s have full: "reconnectAttempts (client_step c e) = MAX_RECONNECT_ATTEMPTS" by simp
  from Cons.IH [OF inv full es] s show ?case by (simp add: client_run_def)
qed

text \<open>
  C7. From a state in which the timer invariant holds (the initial state is one), it
  holds after every run of events: at most one reconnection timeout is pending at any
  time, and its delay is the fixed \<open>RECONNECT_DELAY_MS\<close> (3000 ms). Over a run in
  which the socket never opens, every timeout set has that delay, and their number,
  with the attempts already used, stays within \<open>MAX_RECONNECT_ATTEMPTS\<close> (5) plus the
  number of calls of \<open>disconnectSocket\<close> in the run, each of which can cancel a pending
  timeout whose attempt is then never counted: within 5 when the application makes no
  such call. Once the counter has reached the maximum no timeout is set any more, none
  is pending and the counter stays where it is, whatever happens short of an open. An
  open of the connecting socket resets the counter to 0.
\<close>

theorem reconnect_bounded:
  assumes "timer_inv c"
  shows "timer_inv (client_run c es)
       \<and> length (timers (client_run c es)) \<le> 1
       \<and> (\<forall>t \<in> set (timers (client_run c es)). snd t = RECONNECT_DELAY_MS)
       \<and> (TransportOpen \<notin> set es \<longrightarrow>
            scheduled (client_run c es) = scheduled c @ newly_scheduled c (client_run c es) \<and>
            (\<forall>t \<in> set (newly_scheduled c (client_run c es)). snd t = RECONNECT_DELAY_MS) \<and>
            length (newly_scheduled c (client_run c es)) + attempts_used c
              \<le> MAX_RECONNECT_ATTEMPTS + count_list es DisconnectSocket \<and>
            (reconnectAttempts c = MAX_RECONNECT_ATTEMPTS \<longrightarrow>
               scheduled (client_run c es) = scheduled c \<and>
               timers (client_run c es) = [] \<and>
               reconnectAttempts (client_run c es) = MAX_RECONNECT_ATTEMPTS))
       \<and> ((\<exists>w. socket c = Some w \<and> ws_readyState w = CONNECTING) \<longrightarrow>
            reconnectAttempts (client_step c TransportOpen) = 0)"
proof -
  let ?c' = "client_run c es"
  have inv': "timer_inv ?c'" using assms by (rule timer_inv_run)
  then have one: "length (timers ?c') \<le> 1"
    and delay: "\<forall>t \<in> set (timers ?c'). snd t = RECONNECT_DELAY_MS"
    by (auto simp: timer_inv_def split: list.splits)
  have bounded:
    "scheduled ?c' = scheduled c @ newly_scheduled c ?c' \<and>
     (\<forall>t \<in> set (newly_scheduled c ?c'). snd t = RECONNECT_DELAY_MS) \<and>
     length (newly_scheduled c ?c') + attempts_used c
       \<le> MAX_RECONNECT_ATTEMPTS + count_list es DisconnectSocket \<and>
     (reconnectAttempts c = MAX_RECONNECT_ATTEMPTS \<longrightarrow>
        scheduled ?c' = scheduled c \<and> timers ?c' = [] \<and>
        reconnectAttempts ?c' = MAX_RECONNECT_ATTEMPTS)"
    if no: "TransportOpen \<notin> set es"
  proof -
    from progress_refunded_run [OF assms no] obtain new where
      sch: "scheduled ?c' = scheduled c @ new"
      and del: "\<forall>t \<in> set new. snd t = RECONNECT_DELAY_MS"
      and pot: "length new + attempts_used c
                  \<le> attempts_used ?c' + count_list es DisconnectSocket"
      unfolding progress_refunded_def by blast
    have new: "newly_scheduled c ?c' = new"
      by (simp add: newly_scheduled_def sch)
    from inv' have cap: "attempts_used ?c' \<le> MAX_RECONNECT_ATTEMPTS"
      by (simp add: timer_inv_def)
    have stuck: "scheduled ?c' = scheduled c \<and> timers ?c' = [] \<and>
                 reconnectAttempts ?c' = MAX_RECONNECT_ATTEMPTS"
      if full: "reconnectAttempts c = MAX_RECONNECT_ATTEMPTS"
      using exhausted_run [OF assms full no] exhausted_idle(2) [OF inv'] by simp
    from pot cap have "length new + attempts_used c
                         \<le> MAX_RECONNECT_ATTEMPTS + count_list es DisconnectSocket"
      by linarith
    with sch del stuck show ?thesis
      unfolding new by auto
  qed
  have reset: "reconnectAttempts (client_step c TransportOpen) = 0"
    if "\<exists>w. socket c = Some w \<and> ws_readyState w = CONNECTING"
    using that onopen_resets by auto
  from inv' one delay bounded reset show ?thesis by blast
qed

lemma example_outage_run:
  "scheduled (client_run example_lost_client example_outage) =
     [(1, 3000), (2, 3000), (3, 3000), (4, 3000), (5, 3000)]"
  "reconnectAttempts (client_run example_lost_client example_outage) = 5"
  "timers (client_run example_lost_client example_outage) = []"
  by (simp_all add: client_run_def example_lost_client_def example_outage_def
      socket_onclose_def stale_onclose_def timer_fires_def reconnectSocket_def setTimeout_def
      clearTimeout_def connectSocket_def sendMessage_def queue_and_reconnect_def
      is_open_def is_closed_def truthy_int_def MAX_RECONNECT_ATTEMPTS_def RECONNECT_DELAY_MS_def
      Let_def)

theorem reconnect_bounded_witness:
  "timer_inv example_lost_client
   \<and> list_all retrying example_outage
   \<and> count_list example_outage DisconnectSocket = 0
   \<and> timer_inv (client_run example_lost_client example_outage)
   \<and> scheduled (client_run example_lost_client example_outage) =
       [(1, 3000), (2, 3000), (3, 3000), (4, 3000), (5, 3000)]
   \<and> length (newly_scheduled example_lost_client
                (client_run example_lost_client example_outage))
         + attempts_used example_lost_client \<le> MAX_RECONNECT_ATTEMPTS
   \<and> reconnectAttempts (client_run example_lost_client example_outage) = 5
   \<and> timers (client_run example_lost_client example_outage) = []"
proof -
  have inv: "timer_inv example_lost_client"
    by (simp add: timer_inv_def attempts_used_def example_lost_client_def)
  have ev: "list_all retrying example_outage"
    by (simp add: example_outage_def retrying_def)
  have no: "TransportOpen \<notin> set example_outage"
    and d: "count_list example_outage DisconnectSocket = 0"
    by (simp_all add: example_outage_def)
  from reconnect_bounded [OF inv, of example_outage] no
  have "timer_inv (client_run example_lost_client example_outage)"
    and "length (newly_scheduled example_lost_client
                   (client_run example_lost_client example_outage))
           + attempts_used example_lost_client
           \<le> MAX_RECONNECT_ATTEMPTS + count_list example_outage DisconnectSocket"
    by blast+
  with inv ev d example_outage_run show ?thesis by simp
qed

text \<open>The client whose connection never opens and whose application calls
  \<open>disconnectSocket\<close> and \<open>connectSocket\<close> after each failure: seven timeouts are set with
  no open in between, and the attempt counter is still 0.\<close>

theorem disconnect_uncounted_attempts:
  "timer_inv example_lost_client
   \<and> count_list example_relogins TransportOpen = 0
   \<and> scheduled (client_run example_lost_client example_relogins) =
       [(1, 3000), (2, 3000), (3, 3000), (4, 3000), (5, 3000), (6, 3000), (7, 3000)]
   \<and> MAX_RECONNECT_ATTEMPTS < length (scheduled (client_run example_lost_client example_relogins))
   \<and> reconnectAttempts (client_run example_lost_client example_relogins) = 0"
proof -
  have inv: "timer_inv example_lost_client"
    by (simp add: timer_inv_def attempts_used_def example_lost_client_def)
  have no: "count_list example_relogins TransportOpen = 0"
    by (simp add: example_relogins_def)
  have run: "scheduled (client_run example_lost_client example_relogins) =
       [(1, 3000), (2, 3000), (3, 3000), (4, 3000), (5, 3000), (6, 3000), (7, 3000)]"
    "reconnectAttempts (client_run example_lost_client example_relogins) = 0"
    by (simp_all add: client_run_def example_lost_client_def example_relogins_def
      socket_onclose_def disconnectSocket_def reconnectSocket_def setTimeout_def
      clearTimeout_def connectSocket_def is_open_def truthy_int_def
      MAX_RECONNECT_ATTEMPTS_def RECONNECT_DELAY_MS_def Let_def)
  from inv no run show ?thesis by (simp add: MAX_RECONNECT_ATTEMPTS_def)
qed

section \<open>Actions on a connection without a user id\<close>

lemma on_message_unauthenticated:
  assumes "\<not> truthy_userId (userId s ws)"
  shows "p_type p = ''message'' \<Longrightarrow> on_message s ws (Some p) = ws_send s ws (Error ''Not authenticated'')"
    "p_type p = ''edit_message'' \<Longrightarrow> on_message s ws (Some p) = ws_send s ws (Error ''Invalid message edit format'')"
    "p_type p = ''add_reaction'' \<Longrightarrow> on_message s ws (Some p) = ws_send s ws (Error ''Invalid reaction format'')"
    "p_type p = ''remove_reaction'' \<Longrightarrow> on_message s ws (Some p) = ws_send s ws (Error ''Invalid reaction removal format'')"
    "p_type p = ''typing'' \<Longrightarrow> on_message s ws (Some p) = s"
  using assms
  by (simp_all add: on_message_def on_send_message_def on_edit_message_def on_add_reaction_def
      on_remove_reaction_def on_typing_def)

text \<open>
  C8. On a connection whose user id is undefined (or otherwise falsy), an envelope of
  type \<open>message\<close>, \<open>edit_message\<close>, \<open>add_reaction\<close> or \<open>remove_reaction\<close> is answered with
  one error envelope on that same connection and changes nothing else: the Store and
  the registry stay as they were and no other connection is sent anything. An
  envelope of type \<open>typing\<close> is dropped without any answer.
\<close>

theorem unauthenticated_rejected:
  assumes "\<not> truthy_userId (userId s ws)"
  shows "(p_type p = ''message'' \<longrightarrow>
            on_message s ws (Some p) = s\<lparr>sent := sent s @ [(ws, Error ''Not authenticated'')]\<rparr>)
       \<and> (p_type p = ''edit_message'' \<longrightarrow>
            on_message s ws (Some p) = s\<lparr>sent := sent s @ [(ws, Error ''Invalid message edit format'')]\<rparr>)
       \<and> (p_type p = ''add_reaction'' \<longrightarrow>
            on_message s ws (Some p) = s\<lparr>sent := sent s @ [(ws, Error ''Invalid reaction format'')]\<rparr>)
       \<and> (p_type p = ''remove_reaction'' \<longrightarrow>
            on_message s ws (Some p) =
              s\<lparr>sent := sent s @ [(ws, Error ''Invalid reaction removal format'')]\<rparr>)
       \<and> (p_type p = ''typing'' \<longrightarrow> on_message s ws (Some p) = s)"
  using on_message_unauthenticated [OF assms, of p] by (simp add: ws_send_def)

text \<open>On the unauthenticated connection 40 a typing notice is answered by nothing.\<close>

theorem typing_unauthenticated_silent:
  "\<not> truthy_userId (userId example_gateway 40)
   \<and> sent (on_message example_gateway 40 (Some (example_payload ''typing''))) = []"
  by (simp add: example_gateway_def truthy_userId_def on_message_def on_typing_def example_payload_def)

theorem unauthenticated_rejected_witness:
  "\<not> truthy_userId (userId example_gateway 40)
   \<and> sent (on_message example_gateway 40 (Some (example_payload ''message''))) = [(40, Error ''Not authenticated'')]
   \<and> storage (on_message example_gateway 40 (Some (example_payload ''message''))) = example_store
   \<and> on_message example_gateway 40 (Some (example_payload ''typing'')) = example_gateway"
proof -
  have u: "\<not> truthy_userId (userId example_gateway 40)"
    by (simp add: example_gateway_def truthy_userId_def)
  have t: "p_type (example_payload ''message'') = ''message''" "p_type (example_payload ''typing'') = ''typing''"
    by (simp_all add: example_payload_def)
  have g: "sent example_gateway = []" "storage example_gateway = example_store"
    by (simp_all add: example_gateway_def)
  from unauthenticated_rejected [OF u, of "example_payload ''message''"]
       unauthenticated_rejected [OF u, of "example_payload ''typing''"] t u g
  show ?thesis by simp
qed

section \<open>Authenticating as user 0\<close>

lemma broadcastUserStatus_frame:
  "clients (broadcastUserStatus s uid b) = clients s"
  "readyState (broadcastUserStatus s uid b) = readyState s"
  "userId (broadcastUserStatus s uid b) = userId s"
  "storage (broadcastUserStatus s uid b) = storage s"
  by (simp_all add: broadcastUserStatus_def Let_def split: option.splits)

lemma users_updateUserOnlineStatus:
  "users (fst (updateUserOnlineStatus st uid b)) =
     map (\<lambda>u. if user_id u = uid then u\<lparr>isOnline := Some b\<rparr> else u) (users st)"
  by (simp add: updateUserOnlineStatus_def Let_def)

lemma on_authenticate_Num:
  assumes "Number (p_message p) = Num n"
  shows "clients (on_authenticate s ws p) = (clients s)(n \<mapsto> ws)"
    "userId (on_authenticate s ws p) = (userId s)(ws := Some (Num n))"
    "readyState (on_authenticate s ws p) = readyState s"
    "storage (on_authenticate s ws p) = fst (updateUserOnlineStatus (storage s) n True)"
  using assms by (simp_all add: on_authenticate_def Let_def broadcastUserStatus_frame)

lemma rejected_run:
  assumes z: "\<not> truthy_userId (userId s ws)" and qs: "\<forall>q \<in> set qs. needs_user q"
  shows "foldl (\<lambda>s q. on_message s ws (Some q)) s qs =
           s\<lparr>sent := sent s @ map (\<lambda>q. (ws, Error (zero_rejection q))) qs\<rparr>"
  using assms
proof (induction qs arbitrary: s)
  case Nil
  then show ?case by simp
next
  case (Cons q qs)
  from Cons.prems have nq: "needs_user q" by simp
  have step: "on_message s ws (Some q) = ws_send s ws (Error (zero_rejection q))"
    using nq on_message_unauthenticated [OF Cons.prems(1), of q]
    by (auto simp: needs_user_def zero_rejection_def)
  let ?s1 = "ws_send s ws (Error (zero_rejection q))"
  have z1: "\<not> truthy_userId (userId ?s1 ws)"
    using Cons.prems(1) by (simp add: ws_send_def)
  have "foldl (\<lambda>s q. on_message s ws (Some q)) ?s1 qs =
          ?s1\<lparr>sent := sent ?s1 @ map (\<lambda>q. (ws, Error (zero_rejection q))) qs\<rparr>"
    using Cons.IH [OF z1] Cons.prems(2) by simp
  then show ?case
    by (simp add: step) (simp add: ws_send_def)
qed

text \<open>
  C10. An \<open>authenticate\<close> envelope whose user id converts to 0 registers the connection
  under key 0 and sets every user row with id 0 online; and every sequence of
  \<open>message\<close>, \<open>edit_message\<close>, \<open>add_reaction\<close> and \<open>remove_reaction\<close> envelopes that
  follows on the connection is answered, envelope by envelope, with the error
  \<open>Not authenticated\<close> or the invalid-format error of its type, and changes nothing
  else, because the stored user id 0 is falsy.
\<close>

theorem authenticate_zero_locks_out:
  assumes "p_type p = ''authenticate''" and "Number (p_message p) = Num 0"
    and "\<forall>q \<in> set qs. needs_user q"
  shows "clients (on_message s ws (Some p)) 0 = Some ws
       \<and> (\<forall>u \<in> set (users (storage (on_message s ws (Some p)))).
             user_id u = 0 \<longrightarrow> isOnline u = Some True)
       \<and> foldl (\<lambda>s q. on_message s ws (Some q)) (on_message s ws (Some p)) qs =
           (on_message s ws (Some p))
             \<lparr>sent := sent (on_message s ws (Some p)) @
                        map (\<lambda>q. (ws, Error (zero_rejection q))) qs\<rparr>"
proof -
  have m: "on_message s ws (Some p) = on_authenticate s ws p"
    using assms(1) by (simp add: on_message_def)
  note a = on_authenticate_Num [OF assms(2), of s ws]
  have c: "clients (on_authenticate s ws p) 0 = Some ws"
    by (simp add: a)
  have o: "\<forall>u \<in> set (users (storage (on_authenticate s ws p))). user_id u = 0 \<longrightarrow> isOnline u = Some True"
    by (auto simp: a users_updateUserOnlineStatus)
  have z: "\<not> truthy_userId (userId (on_authenticate s ws p) ws)"
    by (simp add: a truthy_userId_def truthy_number_def)
  show ?thesis
    unfolding m using c o rejected_run [OF z assms(3)] by simp
qed

theorem authenticate_zero_locks_out_witness:
  "clients (on_message example_gateway 40 (Some (example_authenticate 0))) 0 = Some 40
   \<and> sent (foldl (\<lambda>s q. on_message s 40 (Some q))
              (on_message example_gateway 40 (Some (example_authenticate 0)))
              [example_payload ''message'', example_payload ''edit_message'']) =
       [(40, Error ''Not authenticated''), (40, Error ''Invalid message edit format'')]"
proof -
  have t: "p_type (example_authenticate 0) = ''authenticate''"
    and n: "Number (p_message (example_authenticate 0)) = Num 0"
    by (simp_all add: example_authenticate_def Number_def)
  have q: "\<forall>q \<in> set [example_payload ''message'', example_payload ''edit_message'']. needs_user q"
    by (simp add: needs_user_def example_payload_def)
  have z: "map (\<lambda>q. (40::nat, Error (zero_rejection q)))
             [example_payload ''message'', example_payload ''edit_message''] =
           [(40, Error ''Not authenticated''), (40, Error ''Invalid message edit format'')]"
    by (simp add: zero_rejection_def example_payload_def)
  have s0: "sent (on_message example_gateway 40 (Some (example_authenticate 0))) = []"
    by (simp add: on_message_def on_authenticate_def example_authenticate_def Number_def
        broadcastUserStatus_def getUser_def updateUserOnlineStatus_def Let_def
        example_gateway_def example_store_def example_user_def)
  let ?s' = "on_message example_gateway 40 (Some (example_authenticate 0))"
  let ?qs = "[example_payload ''message'', example_payload ''edit_message'']"
  from authenticate_zero_locks_out [OF t n q, of example_gateway 40]
  have c: "clients ?s' 0 = Some 40"
    and r: "foldl (\<lambda>s q. on_message s 40 (Some q)) ?s' ?qs =
              ?s'\<lparr>sent := sent ?s' @ map (\<lambda>q. (40, Error (zero_rejection q))) ?qs\<rparr>"
    by blast+
  have "sent (foldl (\<lambda>s q. on_message s 40 (Some q)) ?s' ?qs) =
          [(40, Error ''Not authenticated''), (40, Error ''Invalid message edit format'')]"
    unfolding r z s0 by simp
  with c show ?thesis by blast
qed

section \<open>Validation failures\<close>

lemma select_message_absent:
  "find (\<lambda>m. msg_id m = mid) (messages st) = None \<Longrightarrow> int4 mid \<Longrightarrow>
   select_message st mid = Inr None"
  by (simp add: select_message_def)

lemma select_message_refused:
  "find (\<lambda>m. msg_id m = mid) (messages st) = None \<Longrightarrow> \<not> int4 mid \<Longrightarrow>
   select_message st mid = Inl NumericValueOutOfRange"
  by (simp add: select_message_def)

text \<open>On a store whose message ids are all in the integer range, the select refuses
  exactly the ids outside it.\<close>

lemma select_message_int4:
  assumes "\<forall>m \<in> set (messages st). int4 (msg_id m)"
  shows "select_message st mid =
           (if int4 mid then Inr (find (\<lambda>m. msg_id m = mid) (messages st))
            else Inl NumericValueOutOfRange)"
proof (cases "find (\<lambda>m. msg_id m = mid) (messages st)")
  case None
  then show ?thesis by (simp add: select_message_def)
next
  case (Some m)
  then have "m \<in> set (messages st)" "msg_id m = mid"
    by (auto simp: find_Some_iff)
  with assms have "int4 mid" by auto
  with Some show ?thesis by (simp add: select_message_def)
qed

lemma updateMessage_not_found:
  "find (\<lambda>m. msg_id m = mid) (messages st) = None \<Longrightarrow> int4 mid \<Longrightarrow>
   updateMessage st mid content = (st, Inr None)"
  by (simp add: updateMessage_def select_message_absent)

lemma addReactionToMessage_not_found:
  "find (\<lambda>m. msg_id m = mid) (messages st) = None \<Longrightarrow> int4 mid \<Longrightarrow>
   addReactionToMessage st mid r = (st, Inr None)"
  by (simp add: addReactionToMessage_def select_message_absent)

lemma removeReactionFromMessage_not_found:
  "find (\<lambda>m. msg_id m = mid) (messages st) = None \<Longrightarrow> int4 mid \<Longrightarrow>
   removeReactionFromMessage st mid uid emoji = (st, Inr None)"
  by (simp add: removeReactionFromMessage_def select_message_absent)

lemma createMessage_no_conversation:
  assumes "find (\<lambda>c. conv_id c = ins_conversationId ins) (conversations st) = None"
  shows "\<exists>st' err. createMessage st ins = (st', Inl err) \<and> messages st' = messages st"
  using assms by (simp add: createMessage_def)

lemma truthy_userId_cases:
  assumes "truthy_userId u"
  obtains uid where "u = Some (Num uid)" "uid \<noteq> 0"
  using assms by (auto simp: truthy_userId_def truthy_number_def split: option.splits js_number.splits)

lemma truthy_string_cases:
  assumes "truthy_string x"
  obtains t where "x = Some t" "t \<noteq> []"
  using assms by (auto simp: truthy_string_def split: option.splits)

lemma invalid_format:
  assumes "truthy_userId (userId s ws)"
  shows "p_type p = ''message'' \<Longrightarrow> \<not> truthy_value (p_message p) \<Longrightarrow>
           on_message s ws (Some p) = ws_send s ws (Error ''Invalid message format'')"
    "p_type p = ''edit_message'' \<Longrightarrow> \<not> truthy_string (p_content p) \<Longrightarrow>
           on_message s ws (Some p) = ws_send s ws (Error ''Invalid message edit format'')"
    "p_type p = ''add_reaction'' \<Longrightarrow> \<not> truthy_string (p_emoji p) \<Longrightarrow>
           on_message s ws (Some p) = ws_send s ws (Error ''Invalid reaction format'')"
    "p_type p = ''remove_reaction'' \<Longrightarrow> \<not> truthy_string (p_emoji p) \<Longrightarrow>
           on_message s ws (Some p) = ws_send s ws (Error ''Invalid reaction removal format'')"
  using assms
  by (simp_all add: on_message_def on_send_message_def on_edit_message_def on_add_reaction_def
      on_remove_reaction_def)

lemma message_not_found:
  assumes u: "truthy_userId (userId s ws)" and mid: "p_messageId p = Some mid" "mid \<noteq> 0"
    and nf': "find (\<lambda>m. msg_id m = mid) (messages (storage s)) = None" and r: "int4 mid"
  shows "p_type p = ''edit_message'' \<Longrightarrow> truthy_string (p_content p) \<Longrightarrow>
           on_message s ws (Some p) = ws_send s ws (Error ''Failed to update message'')"
    "p_type p = ''add_reaction'' \<Longrightarrow> truthy_string (p_emoji p) \<Longrightarrow>
           on_message s ws (Some p) = ws_send s ws (Error ''Failed to add reaction'')"
    "p_type p = ''remove_reaction'' \<Longrightarrow> truthy_string (p_emoji p) \<Longrightarrow>
           on_message s ws (Some p) = ws_send s ws (Error ''Failed to remove reaction'')"
proof -
  from u obtain uid where uid: "userId s ws = Some (Num uid)" "uid \<noteq> 0"
    by (rule truthy_userId_cases)
  have m: "truthy_int (p_messageId p)" using mid by (simp add: truthy_int_def)
  have same: "s\<lparr>storage := storage s\<rparr> = s" by simp
  show "p_type p = ''edit_message'' \<Longrightarrow> truthy_string (p_content p) \<Longrightarrow>
           on_message s ws (Some p) = ws_send s ws (Error ''Failed to update message'')"
    using u m by (auto elim!: truthy_string_cases
        simp: on_message_def on_edit_message_def mid updateMessage_not_found [OF nf' r] same)
  show "p_type p = ''add_reaction'' \<Longrightarrow> truthy_string (p_emoji p) \<Longrightarrow>
           on_message s ws (Some p) = ws_send s ws (Error ''Failed to add reaction'')"
    using u m by (auto elim!: truthy_string_cases
        simp: on_message_def on_add_reaction_def mid uid addReactionToMessage_not_found [OF nf' r] same)
  show "p_type p = ''remove_reaction'' \<Longrightarrow> truthy_string (p_emoji p) \<Longrightarrow>
           on_message s ws (Some p) = ws_send s ws (Error ''Failed to remove reaction'')"
    using u m by (auto elim!: truthy_string_cases
        simp: on_message_def on_remove_reaction_def mid uid removeReactionFromMessage_not_found [OF nf' r] same)
qed

text \<open>A message for a conversation that has no row: the insert throws, nothing is
  sent and no row is written.\<close>

lemma conversation_not_found:
  assumes u: "truthy_userId (userId s ws)"
    and cid: "p_conversationId p = Some cid" "cid \<noteq> 0"
    and v: "truthy_value (p_message p)"
    and nf': "find (\<lambda>c. conv_id c = cid) (conversations (storage s)) = None"
    and t: "p_type p = ''message''"
  shows "sent (on_message s ws (Some p)) = sent s"
    "messages (storage (on_message s ws (Some p))) = messages (storage s)"
proof -
  from u obtain uid where uid: "userId s ws = Some (Num uid)" "uid \<noteq> 0"
    by (rule truthy_userId_cases)
  have c: "truthy_int (p_conversationId p)" using cid by (simp add: truthy_int_def)
  from v obtain content where content: "p_message p = Some content"
    by (cases "p_message p") (auto simp: truthy_value_def)
  let ?ins = "\<lparr>ins_conversationId = cid, ins_senderId = uid,
                ins_content = content_text content,
                ins_attachments = Some (case p_attachments p of None \<Rightarrow> [] | Some as \<Rightarrow> as),
                ins_reactions = None\<rparr>"
  from createMessage_no_conversation [of ?ins "storage s"] nf'
  obtain st' err where cm: "createMessage (storage s) ?ins = (st', Inl err)"
    and same: "messages st' = messages (storage s)"
    by auto
  have "on_message s ws (Some p) = s\<lparr>storage := st'\<rparr>"
    using u c v t
    by (simp add: on_message_def on_send_message_def uid cid content Let_def cm)
  with same show "sent (on_message s ws (Some p)) = sent s"
    "messages (storage (on_message s ws (Some p))) = messages (storage s)"
    by simp_all
qed

text \<open>An edit or a reaction whose message id is outside the integer range: the select
  throws, nothing is sent and nothing changes.\<close>

lemma message_id_refused:
  assumes u: "truthy_userId (userId s ws)" and mid: "p_messageId p = Some mid"
    and nf': "find (\<lambda>m. msg_id m = mid) (messages (storage s)) = None" and r: "\<not> int4 mid"
  shows "p_type p = ''edit_message'' \<Longrightarrow> truthy_string (p_content p) \<Longrightarrow>
           on_message s ws (Some p) = s"
    "p_type p = ''add_reaction'' \<Longrightarrow> truthy_string (p_emoji p) \<Longrightarrow>
           on_message s ws (Some p) = s"
    "p_type p = ''remove_reaction'' \<Longrightarrow> truthy_string (p_emoji p) \<Longrightarrow>
           on_message s ws (Some p) = s"
proof -
  from u obtain uid where uid: "userId s ws = Some (Num uid)" "uid \<noteq> 0"
    by (rule truthy_userId_cases)
  from r have "mid \<noteq> 0" by (auto simp: int4_def)
  then have m: "truthy_int (p_messageId p)" using mid by (simp add: truthy_int_def)
  note sel = select_message_refused [OF nf' r]
  show "p_type p = ''edit_message'' \<Longrightarrow> truthy_string (p_content p) \<Longrightarrow>
           on_message s ws (Some p) = s"
    using u m by (auto elim!: truthy_string_cases
        simp: on_message_def on_edit_message_def mid updateMessage_def sel)
  show "p_type p = ''add_reaction'' \<Longrightarrow> truthy_string (p_emoji p) \<Longrightarrow>
           on_message s ws (Some p) = s"
    using u m by (auto elim!: truthy_string_cases
        simp: on_message_def on_add_reaction_def mid uid addReactionToMessage_def sel)
  show "p_type p = ''remove_reaction'' \<Longrightarrow> truthy_string (p_emoji p) \<Longrightarrow>
           on_message s ws (Some p) = s"
    using u m by (auto elim!: truthy_string_cases
        simp: on_message_def on_remove_reaction_def mid uid removeReactionFromMessage_def sel)
qed

lemma invalid_id:
  assumes "\<not> truthy_int (p_messageId p)"
  shows "p_type p = ''edit_message'' \<Longrightarrow>
           on_message s ws (Some p) = ws_send s ws (Error ''Invalid message edit format'')"
    "p_type p = ''add_reaction'' \<Longrightarrow>
           on_message s ws (Some p) = ws_send s ws (Error ''Invalid reaction format'')"
    "p_type p = ''remove_reaction'' \<Longrightarrow>
           on_message s ws (Some p) = ws_send s ws (Error ''Invalid reaction removal format'')"
  using assms
  by (simp_all add: on_message_def on_edit_message_def on_add_reaction_def on_remove_reaction_def)

lemma edit_failure:
  assumes t: "p_type p = ''edit_message''"
    and f: "\<not> truthy_string (p_content p) \<or>
            (case p_messageId p of None \<Rightarrow> True
             | Some mid \<Rightarrow>
                 int4 mid \<and> find (\<lambda>m. msg_id m = mid) (messages (storage s)) = None)"
  shows "\<exists>reason. on_message s ws (Some p) = ws_send s ws (Error reason)"
proof (cases "truthy_userId (userId s ws)")
  case False
  from on_message_unauthenticated(2) [OF False t] show ?thesis by blast
next
  case u: True
  show ?thesis
  proof (cases "truthy_string (p_content p)")
    case False
    from invalid_format(2) [OF u t False] show ?thesis by blast
  next
    case c: True
    show ?thesis
    proof (cases "truthy_int (p_messageId p)")
      case False
      from invalid_id(1) [OF False t] show ?thesis by blast
    next
      case True
      then obtain mid where mid: "p_messageId p = Some mid" "mid \<noteq> 0"
        by (auto simp: truthy_int_def split: option.splits)
      with f c have nf: "find (\<lambda>m. msg_id m = mid) (messages (storage s)) = None"
        and r: "int4 mid" by simp_all
      from message_not_found(1) [OF u mid nf r t c] show ?thesis by blast
    qed
  qed
qed

lemma add_reaction_failure:
  assumes t: "p_type p = ''add_reaction''"
    and f: "\<not> truthy_string (p_emoji p) \<or>
            (case p_messageId p of None \<Rightarrow> True
             | Some mid \<Rightarrow>
                 int4 mid \<and> find (\<lambda>m. msg_id m = mid) (messages (storage s)) = None)"
  shows "\<exists>reason. on_message s ws (Some p) = ws_send s ws (Error reason)"
proof (cases "truthy_userId (userId s ws)")
  case False
  from on_message_unauthenticated(3) [OF False t] show ?thesis by blast
next
  case u: True
  show ?thesis
  proof (cases "truthy_string (p_emoji p)")
    case False
    from invalid_format(3) [OF u t False] show ?thesis by blast
  next
    case c: True
    show ?thesis
    proof (cases "truthy_int (p_messageId p)")
      case False
      from invalid_id(2) [OF False t] show ?thesis by blast
    next
      case True
      then obtain mid where mid: "p_messageId p = Some mid" "mid \<noteq> 0"
        by (auto simp: truthy_int_def split: option.splits)
      with f c have nf: "find (\<lambda>m. msg_id m = mid) (messages (storage s)) = None"
        and r: "int4 mid" by simp_all
      from message_not_found(2) [OF u mid nf r t c] show ?thesis by blast
    qed
  qed
qed

lemma remove_reaction_failure:
  assumes t: "p_type p = ''remove_reaction''"
    and f: "\<not> truthy_string (p_emoji p) \<or>
            (case p_messageId p of None \<Rightarrow> True
             | Some mid \<Rightarrow>
                 int4 mid \<and> find (\<lambda>m. msg_id m = mid) (messages (storage s)) = None)"
  shows "\<exists>reason. on_message s ws (Some p) = ws_send s ws (Error reason)"
proof (cases "truthy_userId (userId s ws)")
  case False
  from on_message_unauthenticated(4) [OF False t] show ?thesis by blast
next
  case u: True
  show ?thesis
  proof (cases "truthy_string (p_emoji p)")
    case False
    from invalid_format(4) [OF u t False] show ?thesis by blast
  next
    case c: True
    show ?thesis
    proof (cases "truthy_int (p_messageId p)")
      case False
      from invalid_id(3) [OF False t] show ?thesis by blast
    next
      case True
      then obtain mid where mid: "p_messageId p = Some mid" "mid \<noteq> 0"
        by (auto simp: truthy_int_def split: option.splits)
      with f c have nf: "find (\<lambda>m. msg_id m = mid) (messages (storage s)) = None"
        and r: "int4 mid" by simp_all
      from message_not_found(3) [OF u mid nf r t c] show ?thesis by blast
    qed
  qed
qed

lemma message_failure:
  assumes t: "p_type p = ''message''" and f: "\<not> truthy_value (p_message p)"
  shows "\<exists>reason. on_message s ws (Some p) = ws_send s ws (Error reason)"
proof (cases "truthy_userId (userId s ws)")
  case False
  from on_message_unauthenticated(1) [OF False t] show ?thesis by blast
next
  case True
  from invalid_format(1) [OF True t f] show ?thesis by blast
qed

text \<open>
  C9. A \<open>message\<close> that carries neither text nor attachments, empty or missing content
  in an \<open>edit_message\<close>, a missing emoji (\<open>add_reaction\<close>, \<open>remove_reaction\<close>) and a
  message id that is missing or that is an integer of the id column's range which no
  row has (\<open>edit_message\<close>, \<open>add_reaction\<close>, \<open>remove_reaction\<close>) each end in exactly one
  error envelope, sent to the originating connection and to no other, with the Store
  and the rest of the state unchanged: nothing is written before these validations
  succeed.
\<close>

theorem validation_failure_single_error:
  assumes "validation_failure s p"
  shows "\<exists>reason. on_message s ws (Some p) = s\<lparr>sent := sent s @ [(ws, Error reason)]\<rparr>"
proof -
  have types: "p_type p = ''message'' \<or> p_type p = ''edit_message'' \<or>
               p_type p = ''add_reaction'' \<or> p_type p = ''remove_reaction''"
    using assms by (auto simp: validation_failure_def)
  have "\<exists>reason. on_message s ws (Some p) = ws_send s ws (Error reason)"
    using types
  proof (elim disjE)
    assume t: "p_type p = ''message''"
    with assms have "\<not> truthy_value (p_message p)" by (simp add: validation_failure_def)
    with t show ?thesis by (rule message_failure)
  next
    assume t: "p_type p = ''edit_message''"
    with assms show ?thesis by (intro edit_failure) (simp_all add: validation_failure_def)
  next
    assume t: "p_type p = ''add_reaction''"
    with assms show ?thesis by (intro add_reaction_failure) (simp_all add: validation_failure_def)
  next
    assume t: "p_type p = ''remove_reaction''"
    with assms show ?thesis by (intro remove_reaction_failure) (simp_all add: validation_failure_def)
  qed
  then show ?thesis by (simp add: ws_send_def)
qed

theorem validation_failure_single_error_witness:
  "validation_failure example_gateway ((example_payload ''edit_message'')\<lparr>p_messageId := Some 99\<rparr>)
   \<and> validation_failure example_gateway ((example_payload ''add_reaction'')\<lparr>p_emoji := Some []\<rparr>)
   \<and> validation_failure example_gateway ((example_payload ''message'')\<lparr>p_message := Some (JString [])\<rparr>)
   \<and> on_message example_gateway 10
         (Some ((example_payload ''edit_message'')\<lparr>p_messageId := Some 99\<rparr>))
       = example_gateway\<lparr>sent := [(10, Error ''Failed to update message'')]\<rparr>
   \<and> sent (on_message example_gateway 40
         (Some ((example_payload ''add_reaction'')\<lparr>p_emoji := Some []\<rparr>)))
       = [(40, Error ''Invalid reaction format'')]
   \<and> on_message example_gateway 10
         (Some ((example_payload ''message'')\<lparr>p_message := Some (JString [])\<rparr>))
       = example_gateway\<lparr>sent := [(10, Error ''Invalid message format'')]\<rparr>"
proof -
  let ?p = "(example_payload ''edit_message'')\<lparr>p_messageId := Some 99\<rparr>"
  let ?q = "(example_payload ''add_reaction'')\<lparr>p_emoji := Some []\<rparr>"
  let ?r = "(example_payload ''message'')\<lparr>p_message := Some (JString [])\<rparr>"
  have vp: "validation_failure example_gateway ?p"
    and vq: "validation_failure example_gateway ?q"
    and vr: "validation_failure example_gateway ?r"
    by (simp_all add: validation_failure_def example_payload_def example_gateway_def
        example_store_def truthy_string_def truthy_value_def int4_def)
  have e: "sent example_gateway = []" by (simp add: example_gateway_def)
  from validation_failure_single_error [OF vp, of 10]
  obtain reason where 1: "on_message example_gateway 10 (Some ?p) =
                         example_gateway\<lparr>sent := sent example_gateway @ [(10, Error reason)]\<rparr>"
    by blast
  have "sent (on_message example_gateway 10 (Some ?p)) = [(10, Error ''Failed to update message'')]"
    by (simp add: on_message_def on_edit_message_def example_payload_def example_gateway_def
        example_store_def truthy_userId_def truthy_number_def truthy_int_def truthy_string_def
        updateMessage_def select_message_def int4_def ws_send_def)
  with 1 have t1: "reason = ''Failed to update message''" by (simp add: e)
  from validation_failure_single_error [OF vq, of 40]
  obtain reason2 where 2: "on_message example_gateway 40 (Some ?q) =
                         example_gateway\<lparr>sent := sent example_gateway @ [(40, Error reason2)]\<rparr>"
    by blast
  have q: "sent (on_message example_gateway 40 (Some ?q)) = [(40, Error ''Invalid reaction format'')]"
    by (simp add: on_message_def on_add_reaction_def example_payload_def example_gateway_def
        truthy_userId_def ws_send_def)
  from validation_failure_single_error [OF vr, of 10]
  obtain reason3 where 3: "on_message example_gateway 10 (Some ?r) =
                         example_gateway\<lparr>sent := sent example_gateway @ [(10, Error reason3)]\<rparr>"
    by blast
  have "sent (on_message example_gateway 10 (Some ?r)) = [(10, Error ''Invalid message format'')]"
    by (simp add: on_message_def on_send_message_def example_payload_def example_gateway_def
        truthy_userId_def truthy_number_def truthy_int_def truthy_value_def ws_send_def)
  with 3 have t3: "reason3 = ''Invalid message format''" by (simp add: e)
  from 1 t1 3 t3 q vp vq vr show ?thesis by (simp add: e)
qed

text \<open>User 1, on connection 10, sends a message to conversation 8, which does not
  exist: no envelope is sent, to anyone.\<close>

theorem unknown_conversation_no_error:
  "truthy_userId (userId example_gateway 10)
   \<and> find (\<lambda>c. conv_id c = 8) (conversations (storage example_gateway)) = None
   \<and> sent (on_message example_gateway 10
              (Some ((example_payload ''message'')\<lparr>p_conversationId := Some 8\<rparr>))) = []"
  by (simp add: example_gateway_def example_store_def truthy_userId_def truthy_number_def
      on_message_def on_send_message_def example_payload_def truthy_int_def truthy_value_def
      createMessage_def int4_def Let_def)

text \<open>User 1, on connection 10, edits message 2147483648, an id one past the integer
  range: the select throws, and the gateway sends nothing and changes nothing.\<close>

lemma edit_beyond_int4_no_error:
  "on_message example_gateway 10
     (Some ((example_payload ''edit_message'')\<lparr>p_messageId := Some 2147483648\<rparr>)) = example_gateway"
proof -
  let ?p = "(example_payload ''edit_message'')\<lparr>p_messageId := Some 2147483648\<rparr>"
  have u: "truthy_userId (userId example_gateway 10)"
    by (simp add: example_gateway_def truthy_userId_def truthy_number_def)
  have mid: "p_messageId ?p = Some 2147483648" by simp
  have nf: "find (\<lambda>m. msg_id m = 2147483648) (messages (storage example_gateway)) = None"
    by (simp add: example_gateway_def example_store_def)
  have r: "\<not> int4 2147483648" by (simp add: int4_def)
  have t: "p_type ?p = ''edit_message''" "truthy_string (p_content ?p)"
    by (simp_all add: example_payload_def truthy_string_def)
  from message_id_refused(1) [OF u mid nf r t] show ?thesis .
qed

text \<open>The envelope that carries an attachment and no text is not one of these
  validation failures.\<close>

lemma attachments_only_no_validation_failure:
  "\<not> validation_failure example_gateway example_attachments_only"
  by (simp add: validation_failure_def example_attachments_only_def)

section \<open>A message of attachments only\<close>

text \<open>
  C4. User 1, authenticated on connection 10 and a member of conversation 7, sends a
  message whose text is empty and whose attachments array holds one file. The gateway
  answers \<open>Invalid message format\<close> and neither stores nor fans out anything: the test
  \<open>!payload.message\<close> takes the empty string for a missing message, whatever the
  attachments are.
\<close>

theorem attachments_only_rejected:
  "truthy_userId (userId example_gateway 10)
   \<and> p_attachments example_attachments_only \<noteq> None
   \<and> p_attachments example_attachments_only \<noteq> Some []
   \<and> on_message example_gateway 10 (Some example_attachments_only) =
       example_gateway\<lparr>sent := [(10, Error ''Invalid message format'')]\<rparr>"
  by (simp add: example_gateway_def truthy_userId_def truthy_number_def
      on_message_def on_send_message_def example_attachments_only_def truthy_int_def
      truthy_value_def ws_send_def)

section \<open>Closing a connection\<close>

lemma on_close_frame:
  assumes "userId s ws = Some (Num uid)" and "uid \<noteq> 0"
  shows "clients (on_close s ws) = (clients s)(uid := None)"
    "readyState (on_close s ws) = (readyState s)(ws := CLOSED)"
    "userId (on_close s ws) = userId s"
    "storage (on_close s ws) = fst (updateUserOnlineStatus (storage s) uid False)"
  using assms
  by (simp_all add: on_close_def Let_def truthy_userId_def truthy_number_def
      broadcastUserStatus_frame)

text \<open>
  C2. When a connection closes whose stored user id is a non-zero number, the entry of
  that user id is deleted from the registry unconditionally, whichever connection it
  holds; the entries of all other user ids stay, and a fan-out addressed to that user
  id afterwards reaches no connection. So after connection 10 and then connection 50
  have authenticated as user 1 and connection 10 closes, the registry has no entry for
  user 1, although connection 50 is open.
\<close>

theorem close_removes_entry:
  assumes "userId s ws = Some (Num uid)" and "uid \<noteq> 0"
  shows "clients (on_close s ws) uid = None
       \<and> (\<forall>v. v \<noteq> uid \<longrightarrow> clients (on_close s ws) v = clients s v)
       \<and> deliver (on_close s ws) uid env = []"
  by (simp add: on_close_frame [OF assms] deliver_def)

theorem close_removes_entry_witness:
  "userId example_gateway 10 = Some (Num 1)
   \<and> clients example_gateway 1 = Some 10
   \<and> clients (on_close example_gateway 10) 1 = None
   \<and> clients (on_close example_gateway 10) 2 = Some 20
   \<and> deliver (on_close example_gateway 10) 1 (Typing 7 2) = []"
proof -
  have u: "userId example_gateway 10 = Some (Num 1)" and nz: "(1::int) \<noteq> 0"
    by (simp_all add: example_gateway_def)
  have c: "clients example_gateway 1 = Some 10" "clients example_gateway 2 = Some 20"
    by (simp_all add: example_gateway_def)
  from close_removes_entry [OF u nz, of "Typing 7 2"]
  have "clients (on_close example_gateway 10) 1 = None"
    and "clients (on_close example_gateway 10) 2 = clients example_gateway 2"
    and "deliver (on_close example_gateway 10) 1 (Typing 7 2) = []"
    by simp_all
  with u c show ?thesis by simp
qed

lemma on_message_authenticate:
  "on_message s ws (Some (example_authenticate n)) = on_authenticate s ws (example_authenticate n)"
  by (simp add: on_message_def example_authenticate_def)

lemma Number_example_authenticate: "Number (p_message (example_authenticate n)) = Num n"
  by (simp add: example_authenticate_def Number_def)

lemma example_two_logins_registry:
  "clients example_two_logins 1 = Some 50"
  "userId example_two_logins 10 = Some (Num 1)"
  "userId example_two_logins 50 = Some (Num 1)"
  "readyState example_two_logins 50 = OPEN"
  by (simp_all add: example_two_logins_def on_message_authenticate
      on_authenticate_Num [OF Number_example_authenticate] on_connection_def ws_send_def)

text \<open>Connection 10 authenticates as user 1, then connection 50 does; the registry holds
  connection 50. Connection 10 closes: the entry is gone and user 1 is unreachable,
  although connection 50 is still open.\<close>

theorem stale_close_evicts_newer_connection:
  "userId example_two_logins 10 = Some (Num 1)
   \<and> userId example_two_logins 50 = Some (Num 1)
   \<and> clients example_two_logins 1 = Some 50
   \<and> readyState (on_close example_two_logins 10) 50 = OPEN
   \<and> clients (on_close example_two_logins 10) 1 = None
   \<and> deliver (on_close example_two_logins 10) 1 (Typing 7 2) = []"
proof -
  have u: "userId example_two_logins 10 = Some (Num 1)" and nz: "(1::int) \<noteq> 0"
    by (simp_all add: example_two_logins_registry)
  show ?thesis
    by (simp add: example_two_logins_registry on_close_frame [OF u nz] deliver_def)
qed

section \<open>Facts about the example gateway\<close>

lemma example_members:
  "map user_id (conversation_members example_store 7) = [1, 2, 3]"
  by (simp add: conversation_members_def example_store_def example_user_def user_public.defs)

lemma example_registry:
  "clients example_gateway 1 = Some 10" "clients example_gateway 2 = Some 20"
  "clients example_gateway 3 = Some 30"
  "readyState example_gateway 10 = OPEN" "readyState example_gateway 20 = OPEN"
  "readyState example_gateway 30 = OPEN"
  "userId example_gateway 10 = Some (Num 1)"
  "storage example_gateway = example_store" "sent example_gateway = []"
  by (simp_all add: example_gateway_def)

lemma example_only:
  "\<forall>w. clients example_gateway w = Some 20 \<longrightarrow> w = 2"
  "\<forall>w. clients example_gateway w = Some 10 \<longrightarrow> w = 1"
  by (simp_all add: example_gateway_def)

lemma example_message_facts:
  "p_type (example_payload ''message'') = ''message''"
  "p_conversationId (example_payload ''message'') = Some 7"
  "p_message (example_payload ''message'') = Some (JString ''hi'')"
  "p_attachments (example_payload ''message'') = None"
  "truthy_value (Some (JString ''hi''))"
  by (simp_all add: example_payload_def truthy_value_def)

lemma example_store_facts:
  "find (\<lambda>c. conv_id c = 7) (conversations example_store) \<noteq> None"
  "find (\<lambda>u. user_id u = 1) (users example_store) = Some (example_user 1 ''ann'')"
  "distinct (map user_id (users example_store))"
  by (simp_all add: example_store_def example_user_def)

section \<open>Fan-out of a new message\<close>

lemma truncate_with_sender: "message.truncate (with_sender m s) = m"
  by (simp add: with_sender_def message.defs message_with_sender.defs)

lemma with_sender_fields:
  "msg_id (with_sender m s) = msg_id m"
  "msg_conversationId (with_sender m s) = msg_conversationId m"
  "msg_senderId (with_sender m s) = msg_senderId m"
  "msg_content (with_sender m s) = msg_content m"
  "sender (with_sender m s) = s"
  by (simp_all add: with_sender_def message.defs message_with_sender.defs)

lemma members_extend:
  "members (conversation.extend c (conversation_with_members.fields ms lm)) = ms"
  by (simp add: conversation.defs conversation_with_members.defs)

lemma user_id_truncate: "user_id (user_public.truncate u) = user_id u"
  by (simp add: user_public.defs)



lemma count_deliver:
  assumes v: "clients s v = Some cv" and o: "readyState s cv = OPEN"
    and only: "\<forall>w. clients s w = Some cv \<longrightarrow> w = v"
  shows "count_list (deliver s i env) (cv, env) = (if i = v then 1 else 0)"
proof (cases "i = v")
  case True
  with v o show ?thesis by (simp add: deliver_def)
next
  case False
  with only have "clients s i \<noteq> Some cv" by blast
  then have "(cv, env) \<notin> set (deliver s i env)"
    by (cases "clients s i") (simp_all add: deliver_def)
  with False show ?thesis by (simp add: count_list_0_iff)
qed

lemma count_deliveries:
  assumes v: "clients s v = Some cv" and o: "readyState s cv = OPEN"
    and only: "\<forall>w. clients s w = Some cv \<longrightarrow> w = v"
    and d: "distinct ids"
  shows "count_list (concat (map (\<lambda>i. if P i then deliver s i env else []) ids)) (cv, env) =
           (if v \<in> set ids \<and> P v then 1 else 0)"
  using d
proof (induction ids)
  case Nil
  then show ?case by simp
next
  case (Cons i ids)
  have head: "count_list (if P i then deliver s i env else []) (cv, env) =
                (if i = v \<and> P v then 1 else 0)"
  proof (cases "i = v")
    case True
    then show ?thesis using count_deliver [OF v o only, of v env] by simp
  next
    case False
    then show ?thesis using count_deliver [OF v o only, of i env] by simp
  qed
  from Cons have tail: "count_list (concat (map (\<lambda>i. if P i then deliver s i env else []) ids))
                          (cv, env) = (if v \<in> set ids \<and> P v then 1 else 0)"
    and fresh: "i \<notin> set ids"
    by simp_all
  have "count_list (concat (map (\<lambda>i. if P i then deliver s i env else []) (i # ids))) (cv, env) =
          (if i = v \<and> P v then 1 else 0) + (if v \<in> set ids \<and> P v then 1 else 0)"
    unfolding list.map concat.simps count_list_append head tail ..
  also have "\<dots> = (if v \<in> set (i # ids) \<and> P v then 1 else 0)"
    using fresh by auto
  finally show ?case .
qed

lemma deliver_storage: "deliver (s\<lparr>storage := st\<rparr>) i env = deliver s i env"
  by (simp add: deliver_def split: option.splits)

lemma conversation_members_messages:
  "conversation_members (st\<lparr>messages := ms, messages_seq := n\<rparr>) cid = conversation_members st cid"
  by (simp add: conversation_members_def)

lemma createMessage_ok:
  assumes conv: "find (\<lambda>c. conv_id c = ins_conversationId ins) (conversations st) \<noteq> None"
    and usr: "find (\<lambda>u. user_id u = ins_senderId ins) (users st) = Some usr"
  shows "createMessage st ins =
           (st\<lparr>messages := messages st @
                   [\<lparr>msg_id = messages_seq st,
                     msg_conversationId = ins_conversationId ins,
                     msg_senderId = ins_senderId ins,
                     msg_content = ins_content ins,
                     msg_createdAt = Some (clock st),
                     msg_updatedAt = None,
                     isEdited = Some False,
                     msg_attachments = ins_attachments ins,
                     msg_reactions = ins_reactions ins\<rparr>],
               messages_seq := messages_seq st + 1\<rparr>,
            Inr (with_sender
                   \<lparr>msg_id = messages_seq st,
                     msg_conversationId = ins_conversationId ins,
                     msg_senderId = ins_senderId ins,
                     msg_content = ins_content ins,
                     msg_createdAt = Some (clock st),
                     msg_updatedAt = None,
                     isEdited = Some False,
                     msg_attachments = ins_attachments ins,
                     msg_reactions = ins_reactions ins\<rparr>
                   (user_public.truncate usr)))"
  using conv usr by (simp add: createMessage_def Let_def select_sender_def)

lemma getConversationById_messages:
  assumes "find (\<lambda>c. conv_id c = cid) (conversations st) \<noteq> None"
  shows "\<exists>c. getConversationById (st\<lparr>messages := ms, messages_seq := n\<rparr>) cid = Some c \<and>
             members c = conversation_members st cid"
proof -
  from assms obtain c0 where "find (\<lambda>c. conv_id c = cid) (conversations st) = Some c0" by auto
  then show ?thesis
    by (simp add: getConversationById_def members_extend conversation_members_messages)
qed

lemma on_send_message_accepted:
  assumes u: "userId s ws = Some (Num uid)" "uid \<noteq> 0"
    and t: "p_type p = ''message''"
    and c: "p_conversationId p = Some cid" "cid \<noteq> 0"
    and m: "p_message p = Some content" "truthy_value (Some content)"
    and conv: "find (\<lambda>c. conv_id c = cid) (conversations (storage s)) \<noteq> None"
    and usr: "find (\<lambda>u. user_id u = uid) (users (storage s)) = Some usr"
  shows "sent (on_message s ws (Some p)) =
           sent s @ concat (map (\<lambda>member. deliver s (user_id member)
                                             (NewMessage cid (saved_message s uid cid content (p_attachments p) usr)))
                                (conversation_members (storage s) cid))"
    and "messages (storage (on_message s ws (Some p))) =
           messages (storage s) @ [message.truncate (saved_message s uid cid content (p_attachments p) usr)]"
proof -
  let ?ins = "\<lparr>ins_conversationId = cid, ins_senderId = uid,
               ins_content = content_text content,
               ins_attachments = Some (case p_attachments p of None \<Rightarrow> [] | Some as \<Rightarrow> as),
               ins_reactions = None\<rparr>"
  let ?saved = "saved_message s uid cid content (p_attachments p) usr"
  let ?st' = "(storage s)\<lparr>messages := messages (storage s) @ [message.truncate ?saved],
                          messages_seq := messages_seq (storage s) + 1\<rparr>"
  have cm: "createMessage (storage s) ?ins = (?st', Inr ?saved)"
    using createMessage_ok [of ?ins "storage s" usr] conv usr
    by (simp add: saved_message_def truncate_with_sender)
  obtain cv where g: "getConversationById ?st' cid = Some cv"
    and ms: "members cv = conversation_members (storage s) cid"
    using getConversationById_messages [OF conv] by blast
  have tu: "truthy_userId (userId s ws)" using u by (simp add: truthy_userId_def truthy_number_def)
  have ti: "truthy_int (p_conversationId p)" using c by (simp add: truthy_int_def)
  have r: "on_message s ws (Some p) =
             broadcast (s\<lparr>storage := ?st'\<rparr>) (conversation_members (storage s) cid) (NewMessage cid ?saved)"
    using tu ti m(2)
    by (simp add: on_message_def t on_send_message_def u c m(1) Let_def cm g ms)
  show "sent (on_message s ws (Some p)) =
           sent s @ concat (map (\<lambda>member. deliver s (user_id member) (NewMessage cid ?saved))
                                (conversation_members (storage s) cid))"
    unfolding r by (simp add: broadcast_def deliver_storage)
  show "messages (storage (on_message s ws (Some p))) =
           messages (storage s) @ [message.truncate ?saved]"
    unfolding r by (simp add: broadcast_def)
qed

lemma distinct_conversation_members:
  "distinct (map user_id (users st)) \<Longrightarrow> distinct (map user_id (conversation_members st cid))"
proof -
  assume d: "distinct (map user_id (users st))"
  have "map user_id (conversation_members st cid) =
          map user_id (filter (\<lambda>u. user_id u \<in> set (map cm_userId
                 (filter (\<lambda>m. cm_conversationId m = cid) (conversationMembers st)))) (users st))"
    by (simp add: conversation_members_def comp_def user_id_truncate)
  with d show ?thesis by (simp add: distinct_map_filter)
qed

text \<open>
  C1. A \<open>message\<close> envelope with a conversation id and text, sent on a connection
  authenticated as a user who has a row, for a conversation that has one, persists one
  message, and the deliveries it causes are \<open>new_message\<close> envelopes that all carry
  that persisted message with its sender's public profile. Every member of the
  conversation who is registered with an open connection that no other user id is
  registered with receives exactly one of them on that connection; this holds for the
  sender as for every other member (user ids being unique in the users table).
\<close>

theorem new_message_reaches_every_member:
  assumes u: "userId s ws = Some (Num uid)" "uid \<noteq> 0"
    and t: "p_type p = ''message''"
    and c: "p_conversationId p = Some cid" "cid \<noteq> 0"
    and m: "p_message p = Some content" "truthy_value (Some content)"
    and conv: "find (\<lambda>c. conv_id c = cid) (conversations (storage s)) \<noteq> None"
    and usr: "find (\<lambda>u. user_id u = uid) (users (storage s)) = Some usr"
    and pk: "distinct (map user_id (users (storage s)))"
    and v: "v \<in> user_id ` set (conversation_members (storage s) cid)"
    and reach: "clients s v = Some cv" "readyState s cv = OPEN"
               "\<forall>w. clients s w = Some cv \<longrightarrow> w = v"
  shows "messages (storage (on_message s ws (Some p))) =
           messages (storage s) @
             [message.truncate (saved_message s uid cid content (p_attachments p) usr)]
       \<and> take (length (sent s)) (sent (on_message s ws (Some p))) = sent s
       \<and> count_list (drop (length (sent s)) (sent (on_message s ws (Some p))))
            (cv, NewMessage cid (saved_message s uid cid content (p_attachments p) usr)) = 1
       \<and> (\<forall>d \<in> set (drop (length (sent s)) (sent (on_message s ws (Some p)))).
             snd d = NewMessage cid (saved_message s uid cid content (p_attachments p) usr))"
proof -
  let ?env = "NewMessage cid (saved_message s uid cid content (p_attachments p) usr)"
  let ?ids = "map user_id (conversation_members (storage s) cid)"
  note acc = on_send_message_accepted [OF u t c m conv usr]
  have new: "drop (length (sent s)) (sent (on_message s ws (Some p))) =
               concat (map (\<lambda>i. if True then deliver s i ?env else []) ?ids)"
    unfolding acc(1) by (simp add: comp_def)
  have d: "distinct ?ids" using pk by (rule distinct_conversation_members)
  have "count_list (concat (map (\<lambda>i. if True then deliver s i ?env else []) ?ids)) (cv, ?env) =
          (if v \<in> set ?ids \<and> True then 1 else 0)"
    by (rule count_deliveries [OF reach d])
  with v have one: "count_list (drop (length (sent s)) (sent (on_message s ws (Some p)))) (cv, ?env) = 1"
    unfolding new by simp
  have all: "\<forall>d \<in> set (drop (length (sent s)) (sent (on_message s ws (Some p)))). snd d = ?env"
    unfolding new by (auto simp: deliver_def split: option.splits if_splits)
  have pre: "take (length (sent s)) (sent (on_message s ws (Some p))) = sent s"
    unfolding acc(1) by simp
  from acc(2) pre one all show ?thesis by blast
qed

theorem new_message_reaches_every_member_witness:
  "count_list (sent (on_message example_gateway 10 (Some (example_payload ''message''))))
     (20, NewMessage 7 (saved_message example_gateway 1 7 (JString ''hi'') None
                          (example_user 1 ''ann''))) = 1
   \<and> count_list (sent (on_message example_gateway 10 (Some (example_payload ''message''))))
     (10, NewMessage 7 (saved_message example_gateway 1 7 (JString ''hi'') None
                          (example_user 1 ''ann''))) = 1
   \<and> length (messages (storage (on_message example_gateway 10
                                   (Some (example_payload ''message''))))) = 2"
proof -
  have nz: "(1::int) \<noteq> 0" "(7::int) \<noteq> 0" by simp_all
  have usr: "find (\<lambda>u. user_id u = 1) (users (storage example_gateway)) = Some (example_user 1 ''ann'')"
    and conv: "find (\<lambda>c. conv_id c = 7) (conversations (storage example_gateway)) \<noteq> None"
    and pk: "distinct (map user_id (users (storage example_gateway)))"
    by (simp_all add: example_registry example_store_facts)
  have mem: "(2::int) \<in> user_id ` set (conversation_members (storage example_gateway) 7)"
    "(1::int) \<in> user_id ` set (conversation_members (storage example_gateway) 7)"
    using example_members by (simp_all add: example_registry flip: set_map)
  note t2 = new_message_reaches_every_member
            [OF example_registry(7) nz(1) example_message_facts(1,2) nz(2)
                example_message_facts(3,5) conv usr pk mem(1)
                example_registry(2,5) example_only(1)]
  note t1 = new_message_reaches_every_member
            [OF example_registry(7) nz(1) example_message_facts(1,2) nz(2)
                example_message_facts(3,5) conv usr pk mem(2)
                example_registry(1,4) example_only(2)]
  have len: "length (messages example_store) = 1"
    by (simp add: example_store_def)
  from t1 have one: "count_list (sent (on_message example_gateway 10 (Some (example_payload ''message''))))
     (10, NewMessage 7 (saved_message example_gateway 1 7 (JString ''hi'') None
                          (example_user 1 ''ann''))) = 1"
    by (simp add: example_registry example_message_facts)
  from t2 have two: "count_list (sent (on_message example_gateway 10 (Some (example_payload ''message''))))
     (20, NewMessage 7 (saved_message example_gateway 1 7 (JString ''hi'') None
                          (example_user 1 ''ann''))) = 1"
    and stored: "messages (storage (on_message example_gateway 10
                                      (Some (example_payload ''message'')))) =
                   messages example_store @
                   [message.truncate (saved_message example_gateway 1 7 (JString ''hi'') None
                                        (example_user 1 ''ann''))]"
    by (simp_all add: example_registry example_message_facts)
  show ?thesis
    unfolding stored using one two by (simp add: len)
qed


text \<open>User 1 sends a message to conversation 7 on connection 10, the connection the
  registry holds for user 1: the \<open>new_message\<close> envelope goes to connection 10 as well
  as to the connections of users 2 and 3.\<close>

theorem sender_receives_own_message:
  "userId example_gateway 10 = Some (Num 1)
   \<and> clients example_gateway 1 = Some 10
   \<and> sent (on_message example_gateway 10 (Some (example_payload ''message''))) =
       [(10, NewMessage 7 (saved_message example_gateway 1 7 (JString ''hi'') None
                              (example_user 1 ''ann''))),
        (20, NewMessage 7 (saved_message example_gateway 1 7 (JString ''hi'') None
                              (example_user 1 ''ann''))),
        (30, NewMessage 7 (saved_message example_gateway 1 7 (JString ''hi'') None
                              (example_user 1 ''ann'')))]"
proof -
  have nz: "(1::int) \<noteq> 0" "(7::int) \<noteq> 0" by simp_all
  have usr: "find (\<lambda>u. user_id u = 1) (users (storage example_gateway)) = Some (example_user 1 ''ann'')"
    and conv: "find (\<lambda>c. conv_id c = 7) (conversations (storage example_gateway)) \<noteq> None"
    by (simp_all add: example_registry example_store_facts)
  have "sent (on_message example_gateway 10 (Some (example_payload ''message''))) =
          sent example_gateway @
          concat (map (\<lambda>i. deliver example_gateway i
                         (NewMessage 7 (saved_message example_gateway 1 7 (JString ''hi'')
                            (p_attachments (example_payload ''message'')) (example_user 1 ''ann''))))
                   (map user_id (conversation_members (storage example_gateway) 7)))"
    using on_send_message_accepted(1)
            [OF example_registry(7) nz(1) example_message_facts(1,2) nz(2)
                example_message_facts(3,5) conv usr]
    by (simp add: comp_def)
  then show ?thesis
    by (simp add: example_registry example_members example_message_facts deliver_def)
qed

section \<open>Presence broadcasts\<close>



























end
